theory Spec2Isabelle
  imports Main "HOL-Library.Word" "HOL-Library.Multiset"
begin

section \<open>Multisignature parameter check (protocol/vm/vmutil/script.go)\<close>

text \<open>
  \<^verbatim>\<open>checkMultiSigParams(nrequired, npubkeys int64) error\<close> compares two signed 64-bit
  integers. The four branches are kept in the order of the source; every error wraps
  \<^verbatim>\<open>ErrBadValue\<close> with a detail string.
\<close>

datatype vm_error = ErrBadValue string | ErrBuild string

definition checkMultiSigParams :: "64 word \<Rightarrow> 64 word \<Rightarrow> vm_error option" where
  "checkMultiSigParams nrequired npubkeys =
     (if nrequired <s 0 then Some (ErrBadValue ''negative quorum'')
      else if npubkeys <s 0 then Some (ErrBadValue ''negative pubkey count'')
      else if npubkeys <s nrequired then Some (ErrBadValue ''quorum too big'')
      else if nrequired = 0 \<and> 0 <s npubkeys
        then Some (ErrBadValue ''quorum empty with non-empty pubkey list'')
      else None)"

text \<open>
  The script builder lives in builder.go, outside the files at hand. It is an append-only
  list of instructions; only the instructions that \<^verbatim>\<open>addP2SPMultiSig\<close> emits are needed.
  \<^verbatim>\<open>Build\<close> is a parameter of the model.
\<close>

datatype opcode = OP_DUP | OP_TOALTSTACK | OP_SHA3 | OP_CHECKMULTISIG | OP_VERIFY
  | OP_FROMALTSTACK | OP_CHECKPREDICATE

datatype instr = AddOp opcode | AddData string | AddInt64 "64 word"

type_synonym Builder = "instr list"

text \<open>
  \<^verbatim>\<open>addP2SPMultiSig(pubkeys, nrequired)\<close>: \<^verbatim>\<open>nrequired\<close> is a Go \<^verbatim>\<open>int\<close> (64 bits on the
  supported platforms) and \<^verbatim>\<open>int64(len(pubkeys))\<close> is the length as a signed 64-bit value.
\<close>

definition addP2SPMultiSig :: "Builder \<Rightarrow> string list \<Rightarrow> 64 word \<Rightarrow> vm_error + Builder" where
  "addP2SPMultiSig b pubkeys nrequired =
     (case checkMultiSigParams nrequired (of_nat (length pubkeys)) of
        Some err \<Rightarrow> Inl err
      | None \<Rightarrow> Inr (b @ [AddOp OP_DUP, AddOp OP_TOALTSTACK, AddOp OP_SHA3]
                       @ map AddData pubkeys
                       @ [AddInt64 nrequired, AddInt64 (of_nat (length pubkeys)),
                          AddOp OP_CHECKMULTISIG, AddOp OP_VERIFY, AddOp OP_FROMALTSTACK,
                          AddInt64 0, AddOp OP_CHECKPREDICATE]))"

definition P2SPMultiSigProgram ::
  "(Builder \<Rightarrow> vm_error + string) \<Rightarrow> string list \<Rightarrow> 64 word \<Rightarrow> vm_error + string" where
  "P2SPMultiSigProgram Build pubkeys nrequired =
     (case addP2SPMultiSig [] pubkeys nrequired of
        Inl err \<Rightarrow> Inl err
      | Inr builder \<Rightarrow> Build builder)"

section \<open>Keys of the wallet database (blockchain/account/indexer.go)\<close>

type_synonym bytes = string

definition UTXOPreFix :: string where
  "UTXOPreFix = ''ACU:''"

definition walletkey :: bytes where
  "walletkey = ''walletInfo''"

definition accountUTXOKey :: "string \<Rightarrow> bytes" where
  "accountUTXOKey name = UTXOPreFix @ name"

subsection \<open>The key-value store and its write batch\<close>

text \<open>
  \<^verbatim>\<open>db.DB\<close> and \<^verbatim>\<open>db.Batch\<close> come from tmlibs. A database is a finite map from keys to
  values (\<^verbatim>\<open>Get\<close> answers nil for an absent key). A batch records \<^verbatim>\<open>Set\<close> and \<^verbatim>\<open>Delete\<close>
  calls in order; \<^verbatim>\<open>Write\<close> applies them in that order, all at once, and leaves the batch
  as it is (the batch is not reset by a write).
\<close>

type_synonym DB = "bytes \<rightharpoonup> bytes"

datatype batch_op = BSet bytes bytes | BDelete bytes

type_synonym Batch = "batch_op list"

fun applyOp :: "DB \<Rightarrow> batch_op \<Rightarrow> DB" where
  "applyOp d (BSet k v) = d(k \<mapsto> v)"
| "applyOp d (BDelete k) = d(k := None)"

definition Write :: "Batch \<Rightarrow> DB \<Rightarrow> DB" where
  "Write batch d = foldl applyOp d batch"

fun op_key :: "batch_op \<Rightarrow> bytes" where
  "op_key (BSet k v) = k"
| "op_key (BDelete k) = k"


section \<open>Data model of the indexer\<close>

text \<open>
  \<^verbatim>\<open>bc.Hash\<close> is a 32-byte identifier; it is modelled by its byte string, so that
  \<^verbatim>\<open>Bytes()\<close> is the identity. The zero value is 32 zero bytes.
\<close>

type_synonym bc_Hash = bytes

type_synonym error = string

definition zeroHash :: bc_Hash where
  "zeroHash = replicate 32 (CHR 0x00)"

record WalletInfo =
  Height :: "64 word"
  Hash :: bc_Hash

text \<open>\<^verbatim>\<open>Wallet\<close> embeds \<^verbatim>\<open>WalletInfo\<close> and holds the wallet database.\<close>

record Wallet = WalletInfo +
  DB :: DB

record UTXO =
  uOutputID :: bytes
  uAssetID :: bytes
  uAmount :: "64 word"
  uAccountID :: string
  uProgramIndex :: "64 word"
  uProgram :: bytes
  uSourceID :: bytes
  uSourcePos :: "64 word"
  uRefData :: bytes
  uChange :: bool

record AssetAmount =
  AssetId :: bc_Hash
  Amount :: "64 word"

record rawOutput =
  OutputID :: bc_Hash
  assetAmount :: AssetAmount
  ControlProgram :: bytes
  txHash :: bc_Hash
  outputIndex :: "32 word"
  sourceID :: bc_Hash
  sourcePos :: "64 word"
  refData :: bc_Hash

record accountOutput =
  rawOut :: rawOutput
  AccountID :: string
  keyIndex :: "64 word"
  change :: bool

text \<open>
  The registry entry stored under the control-program key (declared in accounts.go):
  account, key index, program and change flag.
\<close>

record controlProgram =
  cpAccountID :: string
  cpKeyIndex :: "64 word"
  cpControlProgram :: bytes
  cpChange :: bool

subsection \<open>Blocks and transactions\<close>

text \<open>
  The ledger types belong to protocol/bc and protocol/bc/legacy. What the indexer reads
  of them: a transaction has an identifier, the identifiers of its inputs, one result
  identifier per output (\<^verbatim>\<open>ResultIds\<close>, aligned with \<^verbatim>\<open>Outputs\<close> by the transaction
  mapper, so that \<^verbatim>\<open>tx.ResultIds[j]\<close> is in range for every output index \<^verbatim>\<open>j\<close>), and a
  table of entries by identifier; the pointer fields that the indexer dereferences are
  set by the mapper. An entry is an output, a spend, a retirement, or
  something else (issuance, mux, header, ...). \<^verbatim>\<open>tx.OutputID(j)\<close> is \<^verbatim>\<open>tx.ResultIds[j]\<close>.
\<close>

record ValueSource =
  Ref :: bc_Hash
  Value :: AssetAmount
  Position :: "64 word"

datatype Entry =
    Output ValueSource bytes bc_Hash
  | Spend bc_Hash
  | Retirement ValueSource bc_Hash
  | OtherEntry

record TxOutput =
  outAssetAmount :: AssetAmount
  outControlProgram :: bytes

record Tx =
  ID :: bc_Hash
  InputIDs :: "bc_Hash list"
  ResultIds :: "bc_Hash list"
  Entries :: "bc_Hash \<rightharpoonup> Entry"
  Outputs :: "TxOutput list"

text \<open>\<^verbatim>\<open>BlockHeight\<close> is the header's \<^verbatim>\<open>Height\<close>; \<^verbatim>\<open>BlockHash\<close> is the value of \<^verbatim>\<open>Hash()\<close>.\<close>

record Block =
  BlockHeight :: "64 word"
  PreviousBlockHash :: bc_Hash
  BlockHash :: bc_Hash
  Transactions :: "Tx list"

text \<open>
  Modelled from the spec: \<^verbatim>\<open>tx.Spend(id)\<close> of protocol/bc, which resolves an input
  identifier to a spend entry and fails for a missing entry or an entry of another kind
  (issuance inputs are not spends).
\<close>

definition SpendOf :: "Tx \<Rightarrow> bc_Hash \<Rightarrow> error + bc_Hash" where
  "SpendOf tx inpID =
     (case Entries tx inpID of
        None \<Rightarrow> Inl ''missing entry''
      | Some (Spend spentOutputId) \<Rightarrow> Inr spentOutputId
      | Some _ \<Rightarrow> Inl ''entry has unexpected type'')"

subsection \<open>External functions\<close>

text \<open>
  Functions of other packages that the indexer calls, taken as parameters:
  the SHA3 digest, the two key builders of accounts.go, the JSON codec of the
  standard library on the four types it is applied to, and the order in which the
  runtime ranges over the keys of a map (unspecified in Go).
  \<^verbatim>\<open>jsonUnmarshalWallet\<close> is \<^verbatim>\<open>json.Unmarshal(raw, &w)\<close>: it decodes into the wallet object
  and returns the wallet as decoding left it, with the error if any. In the same way
  \<^verbatim>\<open>jsonUnmarshalCP\<close> is \<^verbatim>\<open>json.Unmarshal(bytes, &cp)\<close>: it takes the value that \<^verbatim>\<open>cp\<close>
  holds and returns the value that decoding leaves in it (a field that the record omits
  keeps what it held), with the error if any.
\<close>

record ext =
  Sum256 :: "bytes \<Rightarrow> bytes"
  accountCPKey :: "bytes \<Rightarrow> bytes"
  accountKey :: "string \<Rightarrow> bytes"
  jsonUnmarshalCP :: "bytes \<Rightarrow> controlProgram \<Rightarrow> controlProgram \<times> error option"
  jsonMarshalUTXO :: "UTXO \<Rightarrow> error + bytes"
  jsonMarshalInfo :: "WalletInfo \<Rightarrow> error + bytes"
  jsonUnmarshalWallet :: "bytes \<Rightarrow> Wallet \<Rightarrow> Wallet \<times> error option"
  rangeOrder :: "bytes list \<Rightarrow> bytes list"

text \<open>The account manager: the account database (read only here) and the wallet.\<close>

record Manager =
  db :: DB
  wallet :: Wallet

datatype log_entry =
    LogWarn string error
  | LogError string error
  | LogInfo string "64 word"

section \<open>Checkpoint store\<close>

text \<open>
  \<^verbatim>\<open>GetWalletInfo\<close> declares a fresh \<^verbatim>\<open>info\<close>, reads the record, decodes it into the
  receiver \<^verbatim>\<open>w\<close> (not into \<^verbatim>\<open>info\<close>) and returns \<^verbatim>\<open>info\<close>. The result is the returned
  pair together with the wallet as the call left it.
\<close>

definition GetWalletInfo :: "ext \<Rightarrow> Wallet \<Rightarrow> (WalletInfo \<times> error option) \<times> Wallet" where
  "GetWalletInfo X w =
     (let info = \<lparr>Height = 0, Hash = zeroHash\<rparr> in
      case DB w walletkey of
        None \<Rightarrow> ((info, None), w)
      | Some rawWallet \<Rightarrow>
          (case jsonUnmarshalWallet X rawWallet w of
             (w', Some err) \<Rightarrow> ((info, Some err), w')
           | (w', None) \<Rightarrow> ((info, None), w')))"

definition NewWallet :: "ext \<Rightarrow> DB \<Rightarrow> Wallet \<times> log_entry list" where
  "NewWallet X d =
     (let w = \<lparr>Height = 0, Hash = zeroHash, DB = d\<rparr> in
      case GetWalletInfo X w of
        ((walletInfo, err), w') \<Rightarrow>
          (w'\<lparr>Height := Height walletInfo, Hash := Hash walletInfo\<rparr>,
           (case err of Some e \<Rightarrow> [LogWarn ''get wallet info'' e] | None \<Rightarrow> [])))"

definition GetWalletHeight :: "Wallet \<Rightarrow> 64 word" where
  "GetWalletHeight w = Height w"

text \<open>
  \<^verbatim>\<open>commitWalletInfo\<close>: serialise the in-memory checkpoint; on failure log and return,
  otherwise stage it under \<^verbatim>\<open>walletkey\<close> and write the batch.
\<close>

definition commitWalletInfo :: "ext \<Rightarrow> Wallet \<Rightarrow> Batch \<Rightarrow> Wallet \<times> Batch \<times> log_entry list" where
  "commitWalletInfo X w batch =
     (case jsonMarshalInfo X \<lparr>Height = Height w, Hash = Hash w\<rparr> of
        Inl err \<Rightarrow> (w, batch, [LogError ''save wallet info'' err])
      | Inr rawWallet \<Rightarrow>
          (let batch' = batch @ [BSet walletkey rawWallet]
           in (w\<lparr>DB := Write batch' (DB w)\<rparr>, batch', [])))"

section \<open>Account annotation\<close>

text \<open>
  \<^verbatim>\<open>loadAccountInfo\<close> first groups the outputs by control program
  (\<^verbatim>\<open>outsByScript[s] = append(outsByScript[s], out)\<close>), then ranges over the keys of that
  map. The variable \<^verbatim>\<open>cp\<close> is declared once before the loop, with the zero value of
  \<^verbatim>\<open>controlProgram\<close>, and every iteration that finds a record decodes into it: the loop
  carries \<^verbatim>\<open>cp\<close> from one key to the next, also through the iterations that
  \<^verbatim>\<open>continue\<close>. \<^verbatim>\<open>loadLoop\<close> is that loop over the keys in the order of the range, with
  the carried \<^verbatim>\<open>cp\<close> and the \<^verbatim>\<open>result\<close> built so far.
\<close>

definition outsByScript :: "rawOutput list \<Rightarrow> (bytes \<rightharpoonup> rawOutput list)" where
  "outsByScript outs =
     foldl (\<lambda>mp out. mp(ControlProgram out \<mapsto>
               (case mp (ControlProgram out) of None \<Rightarrow> [] | Some l \<Rightarrow> l) @ [out]))
           Map.empty outs"

definition zeroCP :: controlProgram where
  "zeroCP = \<lparr>cpAccountID = [], cpKeyIndex = 0, cpControlProgram = [], cpChange = False\<rparr>"

definition newOut :: "controlProgram \<Rightarrow> rawOutput \<Rightarrow> accountOutput" where
  "newOut cp out =
     \<lparr>rawOut = out, AccountID = cpAccountID cp, keyIndex = cpKeyIndex cp, change = cpChange cp\<rparr>"

fun loadLoop ::
  "ext \<Rightarrow> Manager \<Rightarrow> (bytes \<rightharpoonup> rawOutput list) \<Rightarrow> bytes list \<Rightarrow> controlProgram
     \<Rightarrow> accountOutput list \<Rightarrow> accountOutput list" where
  "loadLoop X mg byScript [] cp result = result"
| "loadLoop X mg byScript (s # ss) cp result =
     (case db mg (accountCPKey X (Sum256 X s)) of
        None \<Rightarrow> loadLoop X mg byScript ss cp result
      | Some bs \<Rightarrow>
          (case jsonUnmarshalCP X bs cp of
             (cp', Some err) \<Rightarrow> loadLoop X mg byScript ss cp' result
           | (cp', None) \<Rightarrow>
               (case db mg (accountKey X (cpAccountID cp')) of
                  None \<Rightarrow> loadLoop X mg byScript ss cp' result
                | Some isExist \<Rightarrow>
                    loadLoop X mg byScript ss cp'
                      (result @ map (newOut cp')
                                 (case byScript s of None \<Rightarrow> [] | Some l \<Rightarrow> l)))))"

definition loadAccountInfo :: "ext \<Rightarrow> Manager \<Rightarrow> rawOutput list \<Rightarrow> accountOutput list" where
  "loadAccountInfo X mg outs =
     loadLoop X mg (outsByScript outs)
       (rangeOrder X (remdups (map ControlProgram outs))) zeroCP []"

section \<open>Staging UTXO records\<close>

definition toUTXO :: "accountOutput \<Rightarrow> UTXO" where
  "toUTXO out =
     \<lparr>uOutputID = OutputID (rawOut out),
      uAssetID = AssetId (assetAmount (rawOut out)),
      uAmount = Amount (assetAmount (rawOut out)),
      uAccountID = AccountID out,
      uProgramIndex = keyIndex out,
      uProgram = ControlProgram (rawOut out),
      uSourceID = sourceID (rawOut out),
      uSourcePos = sourcePos (rawOut out),
      uRefData = refData (rawOut out),
      uChange = change out\<rparr>"

fun upsertConfirmedAccountOutputs ::
  "ext \<Rightarrow> accountOutput list \<Rightarrow> Block \<Rightarrow> Batch \<Rightarrow> Batch \<times> error option" where
  "upsertConfirmedAccountOutputs X [] block batch = (batch, None)"
| "upsertConfirmedAccountOutputs X (out # outs) block batch =
     (case jsonMarshalUTXO X (toUTXO out) of
        Inl err \<Rightarrow> (batch, Some (''failed marshal accountutxo: '' @ err))
      | Inr rawUTXO \<Rightarrow>
          upsertConfirmedAccountOutputs X outs block
            (batch @ [BSet (accountUTXOKey (uOutputID (toUTXO out))) rawUTXO]))"

section \<open>Output extraction\<close>

definition prevoutDBKeys :: "Tx list \<Rightarrow> bc_Hash list" where
  "prevoutDBKeys txs =
     concat (map (\<lambda>tx. concat (map (\<lambda>inpID. case SpendOf tx inpID of
                                               Inr spentOutputId \<Rightarrow> [spentOutputId]
                                             | Inl err \<Rightarrow> [])
                                    (InputIDs tx)))
                 txs)"

text \<open>The raw outputs that \<^verbatim>\<open>ReverseAccountUTXOs\<close> builds from the inputs of a transaction.\<close>

definition reverseOutsTx :: "Tx \<Rightarrow> rawOutput list" where
  "reverseOutsTx tx =
     concat (map (\<lambda>inpID.
        case SpendOf tx inpID of
          Inl err \<Rightarrow> []
        | Inr spentOutputId \<Rightarrow>
            (case Entries tx spentOutputId of
               Some (Output src prog dat) \<Rightarrow>
                 [\<lparr>OutputID = spentOutputId, assetAmount = Value src, ControlProgram = prog,
                   txHash = ID tx, outputIndex = 0, sourceID = Ref src,
                   sourcePos = Position src, refData = dat\<rparr>]
             | _ \<Rightarrow> []))
        (InputIDs tx))"

text \<open>Whether the type assertion \<^verbatim>\<open>tx.Entries[id].(*bc.Output)\<close> succeeds.\<close>

definition isOutputEntry :: "Tx \<Rightarrow> bc_Hash \<Rightarrow> bool" where
  "isOutputEntry tx i =
     (case Entries tx i of Some (Output src prog dat) \<Rightarrow> True | _ \<Rightarrow> False)"

text \<open>
  The result identifiers of a transaction whose entry is an output: the keys that the
  second loop of \<^verbatim>\<open>ReverseAccountUTXOs\<close> deletes (a retirement is skipped).
\<close>

definition newOutputIdsTx :: "Tx \<Rightarrow> bc_Hash list" where
  "newOutputIdsTx tx =
     map fst (filter (\<lambda>(resOutID, out). isOutputEntry tx resOutID)
                     (zip (ResultIds tx) (Outputs tx)))"

text \<open>The raw outputs that \<^verbatim>\<open>BuildAccountUTXOs\<close> builds from the outputs of a transaction.\<close>

definition buildOutsTx :: "Tx \<Rightarrow> rawOutput list" where
  "buildOutsTx tx =
     concat (map (\<lambda>(j, resOutID, out).
        case Entries tx resOutID of
          Some (Output src prog dat) \<Rightarrow>
            [\<lparr>OutputID = resOutID, assetAmount = outAssetAmount out,
              ControlProgram = outControlProgram out, txHash = ID tx,
              outputIndex = of_nat j, sourceID = Ref src,
              sourcePos = Position src, refData = dat\<rparr>]
        | _ \<Rightarrow> [])
        (zip [0 ..< length (Outputs tx)] (zip (ResultIds tx) (Outputs tx))))"

definition ReverseAccountUTXOs ::
  "ext \<Rightarrow> Manager \<Rightarrow> Batch \<Rightarrow> Block \<Rightarrow> Batch \<times> log_entry list" where
  "ReverseAccountUTXOs X mg batch b =
     (let reverseOuts = concat (map reverseOutsTx (Transactions b));
          accOuts = loadAccountInfo X mg reverseOuts
      in case upsertConfirmedAccountOutputs X accOuts b batch of
           (batch1, Some err) \<Rightarrow>
             (batch1, [LogError ''reversing account spent and retire outputs'' err])
         | (batch1, None) \<Rightarrow>
             (batch1 @ map (\<lambda>resOutID. BDelete (accountUTXOKey resOutID))
                          (concat (map newOutputIdsTx (Transactions b))), []))"

definition BuildAccountUTXOs ::
  "ext \<Rightarrow> Manager \<Rightarrow> Batch \<Rightarrow> Block \<Rightarrow> Batch \<times> log_entry list" where
  "BuildAccountUTXOs X mg batch b =
     (let delOutputIDs = prevoutDBKeys (Transactions b);
          batch1 = batch @ map (\<lambda>delOutputID. BDelete (accountUTXOKey delOutputID)) delOutputIDs;
          outs = concat (map buildOutsTx (Transactions b));
          accOuts = loadAccountInfo X mg outs
      in case upsertConfirmedAccountOutputs X accOuts b batch1 of
           (batch2, Some err) \<Rightarrow> (batch2, [LogError ''building new account outputs'' err])
         | (batch2, None) \<Rightarrow> (batch2, []))"

section \<open>The synchronisation loop\<close>

text \<open>
  The chain is another component, changed by other threads while the loop runs: the
  loop sees it through a sequence of snapshots, one per call (\<open>env t\<close> answers the call
  made at time \<open>t\<close>). \<^verbatim>\<open>GetBlockByHeight\<close> answers a block or nil with an error.
  \<^verbatim>\<open>BlockWaiter\<close> says whether the wait for a height ends; a wait that never ends blocks
  the loop.
\<close>

record Chain =
  InMainChain :: "64 word \<Rightarrow> bc_Hash \<Rightarrow> bool"
  GetBlockByHash :: "bc_Hash \<Rightarrow> error + Block"
  GetBlockByHeight :: "64 word \<Rightarrow> error + Block"
  BlockWaiter :: "64 word \<Rightarrow> bool"

text \<open>
  The state of a run of \<^verbatim>\<open>WalletUpdate\<close>: the manager, the local \<^verbatim>\<open>storeBatch\<close>, the log
  written so far and the number of chain calls made.
\<close>

record Run =
  m :: Manager
  storeBatch :: Batch
  logs :: "log_entry list"
  clock :: nat

datatype outcome = Continue | Returned | Blocked

text \<open>A call of \<^verbatim>\<open>m.wallet.commitWalletInfo(&storeBatch)\<close> on the state of the run.\<close>

definition commitRun :: "ext \<Rightarrow> Run \<Rightarrow> Run" where
  "commitRun X r =
     (case commitWalletInfo X (wallet (m r)) (storeBatch r) of
        (w1, batch1, lg1) \<Rightarrow>
          r\<lparr>m := (m r)\<lparr>wallet := w1\<rparr>, storeBatch := batch1, logs := logs r @ lg1\<rparr>)"

text \<open>
  Lines 108 to 116: look the block at a height up; when there is none, wait for it and
  look it up once more. The result is the block with the time after the calls, the
  error of the second lookup, or a wait that never ends.
\<close>

datatype fetch_result = Fetched Block nat | FetchFailed error nat | WaitForever nat

definition fetchNext :: "(nat \<Rightarrow> Chain) \<Rightarrow> nat \<Rightarrow> 64 word \<Rightarrow> fetch_result" where
  "fetchNext env t h =
     (case GetBlockByHeight (env t) h of
        Inr block \<Rightarrow> Fetched block (t + 1)
      | Inl e0 \<Rightarrow>
          if \<not> BlockWaiter (env (t + 1)) h then WaitForever (t + 2)
          else (case GetBlockByHeight (env (t + 2)) h of
                  Inl err \<Rightarrow> FetchFailed err (t + 3)
                | Inr block \<Rightarrow> Fetched block (t + 3)))"

text \<open>Lines 119 to 127: the linkage check and, when it holds, the forward application.\<close>

definition linkage :: "ext \<Rightarrow> Run \<Rightarrow> Block \<Rightarrow> Run" where
  "linkage X r block =
     (if PreviousBlockHash block = Hash (wallet (m r)) then
        (let r1 = r\<lparr>m := (m r)\<lparr>wallet := (wallet (m r))\<lparr>Height := BlockHeight block,
                                                      Hash := BlockHash block\<rparr>\<rparr>\<rparr>
         in case BuildAccountUTXOs X (m r1) (storeBatch r1) block of
              (batch1, lg1) \<Rightarrow>
                commitRun X (r1\<lparr>storeBatch := batch1, logs := logs r1 @ lg1\<rparr>))
      else r)"

text \<open>Lines 105 to 130: commit, look the next block up, check the linkage.\<close>

definition advance :: "ext \<Rightarrow> (nat \<Rightarrow> Chain) \<Rightarrow> Run \<Rightarrow> outcome \<times> Run" where
  "advance X env r =
     (let r1 = commitRun X r
      in case fetchNext env (clock r1) (Height (wallet (m r1)) + 1) of
           Fetched block t' \<Rightarrow> (Continue, linkage X (r1\<lparr>clock := t'\<rparr>) block)
         | WaitForever t' \<Rightarrow> (Blocked, r1\<lparr>clock := t'\<rparr>)
         | FetchFailed err t' \<Rightarrow>
             (Returned,
              r1\<lparr>logs := logs r1 @ [LogError ''wallet get block by height'' err],
                 clock := t'\<rparr>))"

text \<open>Lines 91 to 101: the body of the rollback loop.\<close>

definition rollback :: "ext \<Rightarrow> (nat \<Rightarrow> Chain) \<Rightarrow> Run \<Rightarrow> outcome \<times> Run" where
  "rollback X env r =
     (let t = clock r; w = wallet (m r)
      in case GetBlockByHash (env t) (Hash w) of
           Inl err \<Rightarrow>
             (Returned, r\<lparr>logs := logs r @ [LogError ''get block by hash'' err],
                          clock := t + 1\<rparr>)
         | Inr block \<Rightarrow>
             (case ReverseAccountUTXOs X (m r) (storeBatch r) block of
                (batch1, lg1) \<Rightarrow>
                  (Continue,
                   r\<lparr>m := (m r)\<lparr>wallet := w\<lparr>Height := BlockHeight block - 1,
                                             Hash := PreviousBlockHash block\<rparr>\<rparr>,
                     storeBatch := batch1,
                     logs := logs r @ lg1 @ [LogInfo ''start rollback this block'' (Height w)],
                     clock := t + 1\<rparr>)))"

text \<open>
  One arrival at the label \<^verbatim>\<open>LOOP\<close>: the loop condition is evaluated; when the
  checkpoint is not on the main chain one block is rolled back, otherwise the batch is
  committed and one block is looked up. Both the \<^verbatim>\<open>for\<close> loop and \<^verbatim>\<open>goto LOOP\<close> come
  back to this point.
\<close>

definition WalletUpdate_pass :: "ext \<Rightarrow> (nat \<Rightarrow> Chain) \<Rightarrow> Run \<Rightarrow> outcome \<times> Run" where
  "WalletUpdate_pass X env r =
     (if \<not> InMainChain (env (clock r)) (Height (wallet (m r))) (Hash (wallet (m r)))
      then rollback X env (r\<lparr>clock := clock r + 1\<rparr>)
      else advance X env (r\<lparr>clock := clock r + 1\<rparr>))"

text \<open>
  The loop has no exit but the two returns on a failed fetch, so it is run on fuel:
  \<open>Continue\<close> with no fuel left means that the loop is still running.
\<close>

fun WalletUpdate_loop :: "ext \<Rightarrow> nat \<Rightarrow> (nat \<Rightarrow> Chain) \<Rightarrow> Run \<Rightarrow> outcome \<times> Run" where
  "WalletUpdate_loop X 0 env r = (Continue, r)"
| "WalletUpdate_loop X (Suc n) env r =
     (case WalletUpdate_pass X env r of
        (Continue, r') \<Rightarrow> WalletUpdate_loop X n env r'
      | (Returned, r') \<Rightarrow> (Returned, r')
      | (Blocked, r') \<Rightarrow> (Blocked, r'))"

definition WalletUpdate :: "ext \<Rightarrow> nat \<Rightarrow> (nat \<Rightarrow> Chain) \<Rightarrow> Manager \<Rightarrow> outcome \<times> Run" where
  "WalletUpdate X n env mg =
     WalletUpdate_loop X n env \<lparr>m = mg, storeBatch = [], logs = [], clock = 0\<rparr>"

section \<open>Notions used to state the properties\<close>

text \<open>
  The registry record of a control program, read on its own: the record under the key
  of the program's digest, decoded into a zero value, when the decoding succeeds and the
  account it names exists.
\<close>

definition lookupCP :: "ext \<Rightarrow> Manager \<Rightarrow> bytes \<Rightarrow> controlProgram option" where
  "lookupCP X mg s =
     (case db mg (accountCPKey X (Sum256 X s)) of
        None \<Rightarrow> None
      | Some bs \<Rightarrow>
          (case jsonUnmarshalCP X bs zeroCP of
             (cp, Some err) \<Rightarrow> None
           | (cp, None) \<Rightarrow>
               (case db mg (accountKey X (cpAccountID cp)) of
                  None \<Rightarrow> None
                | Some isExist \<Rightarrow> Some cp)))"

text \<open>
  A record is whole when decoding it does not depend on what the target held: it fails or
  succeeds whatever the target, and a successful decoding leaves the same value whatever
  the target (the record assigns every field). A registry is whole when every record
  under a control-program key is, as when each record is the encoding of a
  \<^verbatim>\<open>controlProgram\<close> value with all its fields.
\<close>

definition wholeRecord :: "ext \<Rightarrow> bytes \<Rightarrow> bool" where
  "wholeRecord X bs =
     (\<forall>cp cp'. snd (jsonUnmarshalCP X bs cp) = snd (jsonUnmarshalCP X bs cp')
         \<and> (snd (jsonUnmarshalCP X bs cp) = None \<longrightarrow>
              fst (jsonUnmarshalCP X bs cp) = fst (jsonUnmarshalCP X bs cp')))"

definition wholeRegistry :: "ext \<Rightarrow> Manager \<Rightarrow> bool" where
  "wholeRegistry X mg =
     (\<forall>h bs. db mg (accountCPKey X h) = Some bs \<longrightarrow> wholeRecord X bs)"

text \<open>
  The annotation of one output, as the specification words it: the output with the
  account of its control program's registry record when that record exists, decodes and
  names an account that exists, nothing otherwise.
\<close>

definition annotateOne :: "ext \<Rightarrow> Manager \<Rightarrow> rawOutput \<Rightarrow> accountOutput list" where
  "annotateOne X mg out =
     (case lookupCP X mg (ControlProgram out) of None \<Rightarrow> [] | Some cp \<Rightarrow> [newOut cp out])"

text \<open>
  The record that the store holds for an unspent output: the serialised UTXO of its
  annotation when it is annotated, nothing otherwise.
\<close>

definition storedRecord :: "ext \<Rightarrow> Manager \<Rightarrow> rawOutput \<Rightarrow> bytes option" where
  "storedRecord X mg out =
     (case lookupCP X mg (ControlProgram out) of
        None \<Rightarrow> None
      | Some cp \<Rightarrow>
          (case jsonMarshalUTXO X (toUTXO (newOut cp out)) of
             Inl err \<Rightarrow> None
           | Inr raw \<Rightarrow> Some raw))"

text \<open>
  A store is consistent with a ledger state \<open>U\<close> (the outputs unspent at the checkpoint,
  by identifier) when, for every identifier, it holds under the UTXO key the record of
  the unspent output with that identifier, and nothing when there is none.
\<close>

definition consistentStore ::
  "ext \<Rightarrow> Manager \<Rightarrow> DB \<Rightarrow> (bc_Hash \<rightharpoonup> rawOutput) \<Rightarrow> bool" where
  "consistentStore X mg d U =
     (\<forall>i. d (accountUTXOKey i) = (case U i of None \<Rightarrow> None | Some out \<Rightarrow> storedRecord X mg out))"

text \<open>
  An input of a block is valid on a ledger state when it is not a spend, or it spends an
  output that the block itself creates, or the entry of the spent output in the spending
  transaction is an output entry that agrees with the unspent output of that identifier.
\<close>

definition validInput :: "(bc_Hash \<rightharpoonup> rawOutput) \<Rightarrow> Block \<Rightarrow> Tx \<Rightarrow> bc_Hash \<Rightarrow> bool" where
  "validInput U b tx inpID =
     (case SpendOf tx inpID of
        Inl err \<Rightarrow> True
      | Inr sid \<Rightarrow>
          sid \<in> set (concat (map newOutputIdsTx (Transactions b)))
          \<or> (case Entries tx sid of
                Some (Output src prog dat) \<Rightarrow>
                  (case U sid of
                     None \<Rightarrow> False
                   | Some u \<Rightarrow> assetAmount u = Value src \<and> ControlProgram u = prog
                               \<and> sourceID u = Ref src \<and> sourcePos u = Position src
                               \<and> refData u = dat \<and> OutputID u = sid)
              | _ \<Rightarrow> False))"

text \<open>
  A block is valid on a ledger state when the outputs it creates are not among the
  unspent outputs and every input is valid.
\<close>

definition validOn :: "(bc_Hash \<rightharpoonup> rawOutput) \<Rightarrow> Block \<Rightarrow> bool" where
  "validOn U b =
     ((\<forall>i \<in> set (concat (map newOutputIdsTx (Transactions b))). U i = None)
      \<and> (\<forall>tx \<in> set (Transactions b). \<forall>inpID \<in> set (InputIDs tx). validInput U b tx inpID))"

text \<open>
  Applying a block on a wallet as the loop does when the linkage holds (advance the
  checkpoint, build, commit), and rolling a block back as the loop does (reverse, move the
  checkpoint to the parent) followed by the commit that ends the reconciliation.
\<close>

definition applyBlock :: "ext \<Rightarrow> Manager \<Rightarrow> Batch \<Rightarrow> Block \<Rightarrow> Wallet \<times> Batch \<times> log_entry list" where
  "applyBlock X mg batch b =
     (let w = (wallet mg)\<lparr>Height := BlockHeight b, Hash := BlockHash b\<rparr>
      in commitWalletInfo X w (fst (BuildAccountUTXOs X (mg\<lparr>wallet := w\<rparr>) batch b)))"

definition rollbackBlock :: "ext \<Rightarrow> Manager \<Rightarrow> Batch \<Rightarrow> Block \<Rightarrow> Wallet \<times> Batch \<times> log_entry list" where
  "rollbackBlock X mg batch b =
     commitWalletInfo X ((wallet mg)\<lparr>Height := BlockHeight b - 1, Hash := PreviousBlockHash b\<rparr>)
       (fst (ReverseAccountUTXOs X mg batch b))"

text \<open>The operations that a successful upsert stages for a list of annotated outputs.\<close>

definition setOps :: "ext \<Rightarrow> accountOutput list \<Rightarrow> Batch" where
  "setOps X outs =
     map (\<lambda>out. BSet (accountUTXOKey (OutputID (rawOut out)))
                      (projr (jsonMarshalUTXO X (toUTXO out)))) outs"

section \<open>Example data\<close>

text \<open>
  A small instance of the external functions, used to run the definitions on examples:
  a digest that tags its argument, the key prefixes of the account database, a registry
  codec that reads a whole record as an account identifier, an encoding of a UTXO by its
  identifier, account and source, and a checkpoint codec that writes the height in unary
  before the hash (and decodes what it writes).
\<close>

definition exX :: ext where
  "exX = \<lparr>Sum256 = (\<lambda>s. ''#'' @ s),
          accountCPKey = (\<lambda>h. ''ACP:'' @ h),
          accountKey = (\<lambda>n. ''ACC:'' @ n),
          jsonUnmarshalCP = (\<lambda>bs cp. if bs = [] then (cp, Some ''unexpected end of JSON input'')
             else (\<lparr>cpAccountID = bs, cpKeyIndex = 1, cpControlProgram = [], cpChange = False\<rparr>,
                   None)),
          jsonMarshalUTXO = (\<lambda>u. Inr (uOutputID u @ ''/'' @ uAccountID u @ ''/'' @ uSourceID u)),
          jsonMarshalInfo = (\<lambda>i. Inr (replicate (unat (Height i)) (CHR ''#'') @ ''@'' @ Hash i)),
          jsonUnmarshalWallet = (\<lambda>raw w.
             if CHR ''@'' \<in> set raw
             then (w\<lparr>Height := of_nat (length (takeWhile (\<lambda>c. c \<noteq> CHR ''@'') raw)),
                     Hash := tl (dropWhile (\<lambda>c. c \<noteq> CHR ''@'') raw)\<rparr>, None)
             else (w, Some ''invalid character'')),
          rangeOrder = rev\<rparr>"

text \<open>The same, with a checkpoint encoder that fails at height 0.\<close>

definition exXfail :: ext where
  "exXfail = exX\<lparr>jsonMarshalInfo :=
     (\<lambda>i. if Height i = 0 then Inl ''unsupported value''
          else Inr (replicate (unat (Height i)) (CHR ''#'') @ ''@'' @ Hash i))\<rparr>"

text \<open>
  The account database: program \<open>P1\<close> is registered to account \<open>acc1\<close>, which exists;
  program \<open>P9\<close> is not registered.
\<close>

definition exAccounts :: DB where
  "exAccounts = [''ACP:#P1'' \<mapsto> ''acc1'', ''ACC:acc1'' \<mapsto> ''{}'']"

definition exManager :: "DB \<Rightarrow> Manager" where
  "exManager d = \<lparr>db = exAccounts, wallet = \<lparr>Height = 0, Hash = zeroHash, DB = d\<rparr>\<rparr>"

definition exOut :: "bytes \<Rightarrow> 64 word \<Rightarrow> bytes \<Rightarrow> Entry" where
  "exOut ref amt prog =
     Output \<lparr>Ref = ref, Value = \<lparr>AssetId = ''A'', Amount = amt\<rparr>, Position = 0\<rparr> prog ''D''"

definition exTxOut :: "64 word \<Rightarrow> bytes \<Rightarrow> TxOutput" where
  "exTxOut amt prog = \<lparr>outAssetAmount = \<lparr>AssetId = ''A'', Amount = amt\<rparr>, outControlProgram = prog\<rparr>"

text \<open>Block 1 creates \<open>O1\<close> (100, program \<open>P1\<close>).\<close>

definition exTx1 :: Tx where
  "exTx1 = \<lparr>ID = ''T1'', InputIDs = [], ResultIds = [''O1''],
            Entries = [''O1'' \<mapsto> exOut ''M1'' 100 ''P1''],
            Outputs = [exTxOut 100 ''P1'']\<rparr>"

definition exBlock1 :: Block where
  "exBlock1 = \<lparr>BlockHeight = 1, PreviousBlockHash = zeroHash, BlockHash = ''B1'',
               Transactions = [exTx1]\<rparr>"

text \<open>
  Block 2 spends \<open>O1\<close> and creates \<open>O2\<close> (60, program \<open>P1\<close>), \<open>O3\<close> (30, the
  unregistered program \<open>P9\<close>) and a retirement \<open>R1\<close>.
\<close>

definition exTx2 :: Tx where
  "exTx2 = \<lparr>ID = ''T2'', InputIDs = [''S1''], ResultIds = [''O2'', ''O3'', ''R1''],
            Entries = [''S1'' \<mapsto> Spend ''O1'',
                       ''O1'' \<mapsto> exOut ''M1'' 100 ''P1'',
                       ''O2'' \<mapsto> exOut ''M2'' 60 ''P1'',
                       ''O3'' \<mapsto> exOut ''M2'' 30 ''P9'',
                       ''R1'' \<mapsto> Retirement \<lparr>Ref = ''M2'', Value = \<lparr>AssetId = ''A'', Amount = 10\<rparr>,
                                                Position = 2\<rparr> ''D''],
            Outputs = [exTxOut 60 ''P1'', exTxOut 30 ''P9'', exTxOut 10 ''fail'']\<rparr>"

definition exBlock2 :: Block where
  "exBlock2 = \<lparr>BlockHeight = 2, PreviousBlockHash = ''B1'', BlockHash = ''B2'',
               Transactions = [exTx2]\<rparr>"

text \<open>
  A block at height 1 whose first transaction creates \<open>O1\<close> (program \<open>P1\<close>) and whose
  second transaction spends it.
\<close>

definition exTxSpend :: Tx where
  "exTxSpend = \<lparr>ID = ''T3'', InputIDs = [''S1''], ResultIds = [''O4''],
            Entries = [''S1'' \<mapsto> Spend ''O1'',
                       ''O1'' \<mapsto> exOut ''M1'' 100 ''P1'',
                       ''O4'' \<mapsto> exOut ''M3'' 100 ''P9''],
            Outputs = [exTxOut 100 ''P9'']\<rparr>"

definition exBlockChained :: Block where
  "exBlockChained = \<lparr>BlockHeight = 1, PreviousBlockHash = zeroHash, BlockHash = ''C1'',
               Transactions = [exTx1, exTxSpend]\<rparr>"

text \<open>
  A chain with the given main chain, which also knows the given side blocks by hash;
  height 0 counts as on the main chain. No block ever arrives: a wait never ends.
\<close>

definition exChain :: "Block list \<Rightarrow> Block list \<Rightarrow> Chain" where
  "exChain main side =
     \<lparr>InMainChain = (\<lambda>h hash. h = 0
                        \<or> find (\<lambda>b. BlockHeight b = h \<and> BlockHash b = hash) main \<noteq> None),
      GetBlockByHash = (\<lambda>hash. case find (\<lambda>b. BlockHash b = hash) (main @ side) of
                                 None \<Rightarrow> Inl ''block not found'' | Some b \<Rightarrow> Inr b),
      GetBlockByHeight = (\<lambda>h. case find (\<lambda>b. BlockHeight b = h) main of
                                 None \<Rightarrow> Inl ''can't find block in given height'' | Some b \<Rightarrow> Inr b),
      BlockWaiter = (\<lambda>h. False)\<rparr>"

text \<open>A block at height 1 whose parent is not the zero hash.\<close>

definition exBlockOrphan :: Block where
  "exBlockOrphan = \<lparr>BlockHeight = 1, PreviousBlockHash = ''Z9'', BlockHash = ''B9'',
               Transactions = [exTx1]\<rparr>"

text \<open>A chain with no block, whose waiter fires all the same.\<close>

definition exChainGone :: Chain where
  "exChainGone = (exChain [] [])\<lparr>BlockWaiter := (\<lambda>h. True)\<rparr>"

text \<open>A manager whose wallet stands at a given checkpoint.\<close>

definition exManagerAt :: "64 word \<Rightarrow> bc_Hash \<Rightarrow> DB \<Rightarrow> Manager" where
  "exManagerAt h hash d = \<lparr>db = exAccounts, wallet = \<lparr>Height = h, Hash = hash, DB = d\<rparr>\<rparr>"

definition exRun :: "Manager \<Rightarrow> Run" where
  "exRun mg = \<lparr>m = mg, storeBatch = [], logs = [], clock = 0\<rparr>"

text \<open>A block at height 1 on a side branch, which creates \<open>O9\<close> (program \<open>P1\<close>).\<close>

definition exTxFork :: Tx where
  "exTxFork = \<lparr>ID = ''T9'', InputIDs = [], ResultIds = [''O9''],
            Entries = [''O9'' \<mapsto> exOut ''M9'' 100 ''P1''],
            Outputs = [exTxOut 100 ''P1'']\<rparr>"

definition exBlockFork :: Block where
  "exBlockFork = \<lparr>BlockHeight = 1, PreviousBlockHash = zeroHash, BlockHash = ''F1'',
               Transactions = [exTxFork]\<rparr>"

text \<open>
  The ledger state after block 1: \<open>O1\<close> is unspent; and the store that is consistent
  with it, with the checkpoint record of block 1.
\<close>

definition exLedger1 :: "bc_Hash \<rightharpoonup> rawOutput" where
  "exLedger1 = [''O1'' \<mapsto> \<lparr>OutputID = ''O1'', assetAmount = \<lparr>AssetId = ''A'', Amount = 100\<rparr>,
                             ControlProgram = ''P1'', txHash = ''T1'', outputIndex = 0,
                             sourceID = ''M1'', sourcePos = 0, refData = ''D''\<rparr>]"

definition exStore1 :: DB where
  "exStore1 = [accountUTXOKey ''O1'' \<mapsto> ''O1/acc1/M1'', walletkey \<mapsto> ''#@B1'']"




section \<open>Properties\<close>

subsection \<open>The multisignature parameter check\<close>

lemma sint_len: "n < 2 ^ 63 \<Longrightarrow> sint (of_nat n :: 64 word) = int n"
  by (simp add: signed_of_nat signed_take_bit_int_eq_self)

text \<open>
  Claim C10. \<^verbatim>\<open>checkMultiSigParams\<close> answers an error exactly when the quorum is negative, the
  key count is negative, the quorum exceeds the key count, or the quorum is zero with a
  positive key count (all read as signed 64-bit values). \<^verbatim>\<open>P2SPMultiSigProgram\<close> returns
  the error of that check exactly for these quorums and key lists (a key list has fewer
  than \<open>2^63\<close> keys); the quorum 0 with no key passes the check and the program is built.
\<close>

theorem checkMultiSigParams_rejects_iff:
  fixes nrequired npubkeys :: "64 word" and pubkeys :: "string list"
  shows "((\<exists>err. checkMultiSigParams nrequired npubkeys = Some err) \<longleftrightarrow>
            (sint nrequired < 0 \<or> sint npubkeys < 0 \<or> sint npubkeys < sint nrequired
             \<or> (nrequired = 0 \<and> 0 < sint npubkeys)))
       \<and> (length pubkeys < 2 ^ 63 \<longrightarrow>
            ((\<exists>err. P2SPMultiSigProgram Build pubkeys nrequired = Inl err
                    \<and> checkMultiSigParams nrequired (of_nat (length pubkeys)) = Some err) \<longleftrightarrow>
             (sint nrequired < 0 \<or> int (length pubkeys) < sint nrequired
              \<or> (nrequired = 0 \<and> 0 < length pubkeys))))
       \<and> checkMultiSigParams 0 0 = None
       \<and> P2SPMultiSigProgram Build [] 0 =
           Build [AddOp OP_DUP, AddOp OP_TOALTSTACK, AddOp OP_SHA3, AddInt64 0, AddInt64 0,
                  AddOp OP_CHECKMULTISIG, AddOp OP_VERIFY, AddOp OP_FROMALTSTACK,
                  AddInt64 0, AddOp OP_CHECKPREDICATE]"
proof (intro conjI impI)
  show "(\<exists>err. checkMultiSigParams nrequired npubkeys = Some err) \<longleftrightarrow>
            (sint nrequired < 0 \<or> sint npubkeys < 0 \<or> sint npubkeys < sint nrequired
             \<or> (nrequired = 0 \<and> 0 < sint npubkeys))"
    by (auto simp add: checkMultiSigParams_def word_sless_alt)
next
  assume len: "length pubkeys < 2 ^ 63"
  then show "(\<exists>err. P2SPMultiSigProgram Build pubkeys nrequired = Inl err
                    \<and> checkMultiSigParams nrequired (of_nat (length pubkeys)) = Some err) \<longleftrightarrow>
             (sint nrequired < 0 \<or> int (length pubkeys) < sint nrequired
              \<or> (nrequired = 0 \<and> 0 < length pubkeys))"
    by (auto simp add: P2SPMultiSigProgram_def addP2SPMultiSig_def checkMultiSigParams_def
        word_sless_alt sint_len split: option.splits)
next
  show "checkMultiSigParams 0 0 = None"
    by (simp add: checkMultiSigParams_def)
next
  show "P2SPMultiSigProgram Build [] 0 =
           Build [AddOp OP_DUP, AddOp OP_TOALTSTACK, AddOp OP_SHA3, AddInt64 0, AddInt64 0,
                  AddOp OP_CHECKMULTISIG, AddOp OP_VERIFY, AddOp OP_FROMALTSTACK,
                  AddInt64 0, AddOp OP_CHECKPREDICATE]"
    by (simp add: P2SPMultiSigProgram_def addP2SPMultiSig_def checkMultiSigParams_def)
qed

theorem checkMultiSigParams_rejects_iff_witness:
  "length [''k1'', ''k2''] < (2::nat) ^ 63
   \<and> P2SPMultiSigProgram (\<lambda>b. Inr []) [''k1'', ''k2''] 3 = Inl (ErrBadValue ''quorum too big'')
   \<and> (\<exists>v. P2SPMultiSigProgram (\<lambda>b. Inr ''prog'') [''k1'', ''k2''] 2 = Inr v)"
proof -
  have len: "length [''k1'', ''k2''] < (2::nat) ^ 63" by simp
  have "\<exists>err. P2SPMultiSigProgram (\<lambda>b. Inr []) [''k1'', ''k2''] 3 = Inl err
               \<and> checkMultiSigParams 3 (of_nat (length [''k1'', ''k2''])) = Some err"
    using checkMultiSigParams_rejects_iff [of 3 0 "[''k1'', ''k2'']" "\<lambda>b. Inr []"] len
    by (simp add: word_sless_alt)
  then show ?thesis
    by (auto simp add: checkMultiSigParams_def P2SPMultiSigProgram_def addP2SPMultiSig_def
        word_sless_alt)
qed

subsection \<open>Batches and keys\<close>

lemma Write_append: "Write (a @ b) d = Write b (Write a d)"
  by (simp add: Write_def)

lemma Write_other_key: "k \<notin> op_key ` set ops \<Longrightarrow> Write ops d k = d k"
proof (induction ops arbitrary: d)
  case Nil
  then show ?case by (simp add: Write_def)
next
  case (Cons x ops)
  then have "Write ops (applyOp d x) k = applyOp d x k" by (simp add: Write_def)
  moreover have "applyOp d x k = d k" using Cons.prems by (cases x) auto
  ultimately show ?case by (simp add: Write_def)
qed

lemma accountUTXOKey_inj: "accountUTXOKey a = accountUTXOKey b \<longleftrightarrow> a = b"
  by (simp add: accountUTXOKey_def)

lemma accountUTXOKey_not_walletkey: "accountUTXOKey a \<noteq> walletkey"
  by (simp add: accountUTXOKey_def UTXOPreFix_def walletkey_def)

lemma upsert_appends:
  "\<exists>ops. fst (upsertConfirmedAccountOutputs X outs block batch) = batch @ ops
         \<and> (\<forall>x \<in> set ops. \<exists>out \<in> set outs. \<exists>v. x = BSet (accountUTXOKey (OutputID (rawOut out))) v)"
proof (induction outs arbitrary: batch)
  case Nil
  then show ?case by simp
next
  case (Cons out outs)
  show ?case
  proof (cases "jsonMarshalUTXO X (toUTXO out)")
    case (Inl e)
    then show ?thesis by simp
  next
    case (Inr raw)
    let ?b = "batch @ [BSet (accountUTXOKey (uOutputID (toUTXO out))) raw]"
    from Cons.IH [of ?b] obtain ops where
      ops: "fst (upsertConfirmedAccountOutputs X outs block ?b) = ?b @ ops"
      "\<forall>x \<in> set ops. \<exists>out \<in> set outs. \<exists>v. x = BSet (accountUTXOKey (OutputID (rawOut out))) v"
      by blast
    have "fst (upsertConfirmedAccountOutputs X (out # outs) block batch)
          = batch @ (BSet (accountUTXOKey (uOutputID (toUTXO out))) raw # ops)"
      using Inr ops(1) by simp
    moreover have "\<forall>x \<in> set (BSet (accountUTXOKey (uOutputID (toUTXO out))) raw # ops).
         \<exists>o' \<in> set (out # outs). \<exists>v. x = BSet (accountUTXOKey (OutputID (rawOut o'))) v"
      using ops(2) by (auto simp add: toUTXO_def)
    ultimately show ?thesis by blast
  qed
qed

text \<open>What the two block operations add to a batch.\<close>

lemma Build_appends:
  "\<exists>sets. fst (BuildAccountUTXOs X mg batch b) =
            batch @ map (\<lambda>i. BDelete (accountUTXOKey i)) (prevoutDBKeys (Transactions b)) @ sets
     \<and> (\<forall>x \<in> set sets. \<exists>out \<in> set (loadAccountInfo X mg (concat (map buildOutsTx (Transactions b)))).
            \<exists>v. x = BSet (accountUTXOKey (OutputID (rawOut out))) v)"
proof -
  let ?acc = "loadAccountInfo X mg (concat (map buildOutsTx (Transactions b)))"
  let ?b1 = "batch @ map (\<lambda>i. BDelete (accountUTXOKey i)) (prevoutDBKeys (Transactions b))"
  obtain ops where ops: "fst (upsertConfirmedAccountOutputs X ?acc b ?b1) = ?b1 @ ops"
    "\<forall>x \<in> set ops. \<exists>out \<in> set ?acc. \<exists>v. x = BSet (accountUTXOKey (OutputID (rawOut out))) v"
    using upsert_appends [of X ?acc b ?b1] by blast
  have "fst (BuildAccountUTXOs X mg batch b) = fst (upsertConfirmedAccountOutputs X ?acc b ?b1)"
    by (simp add: BuildAccountUTXOs_def Let_def split: prod.splits option.splits)
  with ops show ?thesis by auto
qed

lemma Reverse_appends:
  "\<exists>sets dels. fst (ReverseAccountUTXOs X mg batch b) = batch @ sets @ dels
     \<and> (\<forall>x \<in> set sets. \<exists>out \<in> set (loadAccountInfo X mg (concat (map reverseOutsTx (Transactions b)))).
            \<exists>v. x = BSet (accountUTXOKey (OutputID (rawOut out))) v)
     \<and> (\<forall>x \<in> set dels. \<exists>i \<in> set (concat (map newOutputIdsTx (Transactions b))).
            x = BDelete (accountUTXOKey i))"
proof -
  let ?acc = "loadAccountInfo X mg (concat (map reverseOutsTx (Transactions b)))"
  obtain ops where ops: "fst (upsertConfirmedAccountOutputs X ?acc b batch) = batch @ ops"
    "\<forall>x \<in> set ops. \<exists>out \<in> set ?acc. \<exists>v. x = BSet (accountUTXOKey (OutputID (rawOut out))) v"
    using upsert_appends [of X ?acc b batch] by blast
  obtain b1 e where eq: "upsertConfirmedAccountOutputs X ?acc b batch = (b1, e)"
    by (cases "upsertConfirmedAccountOutputs X ?acc b batch")
  with ops(1) have b1: "b1 = batch @ ops" by simp
  show ?thesis
  proof (cases e)
    case None
    then have "fst (ReverseAccountUTXOs X mg batch b) =
        batch @ ops @ map (\<lambda>i. BDelete (accountUTXOKey i)) (concat (map newOutputIdsTx (Transactions b)))"
      using eq b1 by (simp add: ReverseAccountUTXOs_def Let_def)
    moreover have "\<forall>x \<in> set (map (\<lambda>i. BDelete (accountUTXOKey i)) (concat (map newOutputIdsTx (Transactions b)))).
       \<exists>i \<in> set (concat (map newOutputIdsTx (Transactions b))). x = BDelete (accountUTXOKey i)"
      by auto
    ultimately show ?thesis using ops(2) by blast
  next
    case (Some err)
    then have "fst (ReverseAccountUTXOs X mg batch b) = batch @ ops @ []"
      using eq b1 by (simp add: ReverseAccountUTXOs_def Let_def)
    moreover have "\<forall>x \<in> set ([]::batch_op list). \<exists>i \<in> set (concat (map newOutputIdsTx (Transactions b))).
            x = BDelete (accountUTXOKey i)" by simp
    ultimately show ?thesis using ops(2) by blast
  qed
qed

lemma in_output_case:
  "x \<in> set (case e of None \<Rightarrow> [] | Some (Output src prog dat) \<Rightarrow> [f src prog dat]
                | Some (Spend sp) \<Rightarrow> [] | Some (Retirement rs rd) \<Rightarrow> [] | Some OtherEntry \<Rightarrow> [])
   \<longleftrightarrow> (case e of Some (Output src prog dat) \<Rightarrow> x = f src prog dat | _ \<Rightarrow> False)"
proof (cases e)
  case None
  then show ?thesis by simp
next
  case (Some en)
  then show ?thesis by (cases en) auto
qed

lemma newOutputIdsTx_iff:
  "i \<in> set (newOutputIdsTx tx) \<longleftrightarrow>
     (\<exists>out. (i, out) \<in> set (zip (ResultIds tx) (Outputs tx))) \<and> isOutputEntry tx i"
  by (auto simp add: newOutputIdsTx_def image_iff)

lemma in_buildOutsTx:
  "r \<in> set (buildOutsTx tx) \<longleftrightarrow>
     (\<exists>j out. (j, OutputID r, out) \<in> set (zip [0 ..< length (Outputs tx)] (zip (ResultIds tx) (Outputs tx)))
        \<and> (case Entries tx (OutputID r) of
              Some (Output src prog dat) \<Rightarrow>
                r = \<lparr>OutputID = OutputID r, assetAmount = outAssetAmount out,
                     ControlProgram = outControlProgram out, txHash = ID tx,
                     outputIndex = of_nat j, sourceID = Ref src,
                     sourcePos = Position src, refData = dat\<rparr>
            | _ \<Rightarrow> False))"
  (is "?L \<longleftrightarrow> ?R")
proof
  assume ?L
  then obtain j i out where z: "(j, i, out) \<in> set (zip [0 ..< length (Outputs tx)] (zip (ResultIds tx) (Outputs tx)))"
    and c: "case Entries tx i of
              Some (Output src prog dat) \<Rightarrow>
                r = \<lparr>OutputID = i, assetAmount = outAssetAmount out,
                     ControlProgram = outControlProgram out, txHash = ID tx,
                     outputIndex = of_nat j, sourceID = Ref src,
                     sourcePos = Position src, refData = dat\<rparr>
            | _ \<Rightarrow> False"
    unfolding buildOutsTx_def by (auto simp only: set_concat set_map in_output_case)
  from c have "OutputID r = i"
    by (cases "Entries tx i") (auto split: Entry.splits)
  with z c show ?R by blast
next
  assume ?R
  then obtain j out where z: "(j, OutputID r, out) \<in> set (zip [0 ..< length (Outputs tx)] (zip (ResultIds tx) (Outputs tx)))"
    and c: "case Entries tx (OutputID r) of
              Some (Output src prog dat) \<Rightarrow>
                r = \<lparr>OutputID = OutputID r, assetAmount = outAssetAmount out,
                     ControlProgram = outControlProgram out, txHash = ID tx,
                     outputIndex = of_nat j, sourceID = Ref src,
                     sourcePos = Position src, refData = dat\<rparr>
            | _ \<Rightarrow> False" by blast
  have "r \<in> set ((\<lambda>(j, resOutID, out).
        case Entries tx resOutID of
          Some (Output src prog dat) \<Rightarrow>
            [\<lparr>OutputID = resOutID, assetAmount = outAssetAmount out,
              ControlProgram = outControlProgram out, txHash = ID tx,
              outputIndex = of_nat j, sourceID = Ref src,
              sourcePos = Position src, refData = dat\<rparr>]
        | _ \<Rightarrow> []) (j, OutputID r, out))"
    using c by (simp only: prod.case in_output_case)
  with z show ?L unfolding buildOutsTx_def set_concat set_map by blast
qed

subsection \<open>Annotation\<close>

lemma outsByScript_eq:
  "outsByScript outs s =
     (if s \<in> ControlProgram ` set outs then Some (filter (\<lambda>out. ControlProgram out = s) outs) else None)"
proof (induction outs rule: rev_induct)
  case Nil
  then show ?case by (simp add: outsByScript_def)
next
  case (snoc x xs)
  have step: "outsByScript (xs @ [x]) =
     (outsByScript xs)(ControlProgram x \<mapsto>
        (case outsByScript xs (ControlProgram x) of None \<Rightarrow> [] | Some l \<Rightarrow> l) @ [x])"
    by (simp add: outsByScript_def)
  show ?case
  proof (cases "s = ControlProgram x")
    case True
    have "ControlProgram x \<notin> ControlProgram ` set xs \<Longrightarrow>
        filter (\<lambda>out. ControlProgram out = ControlProgram x) xs = []"
      unfolding filter_empty_conv by (metis imageI)
    then show ?thesis using snoc True by (auto simp add: step)
  next
    case False
    then show ?thesis using snoc by (auto simp add: step)
  qed
qed

lemma outsByScript_group:
  "(case outsByScript outs s of None \<Rightarrow> [] | Some l \<Rightarrow> l) = filter (\<lambda>out. ControlProgram out = s) outs"
proof (cases "s \<in> ControlProgram ` set outs")
  case True
  then show ?thesis by (simp add: outsByScript_eq)
next
  case False
  then have "filter (\<lambda>out. ControlProgram out = s) outs = []"
    unfolding filter_empty_conv by (metis imageI)
  with False show ?thesis by (simp add: outsByScript_eq)
qed

text \<open>
  Whatever the registry holds, every annotated output comes from the grouping map, so
  from the list of outputs.
\<close>

lemma loadLoop_subset:
  assumes "a \<in> set (loadLoop X mg byScript ss cp result)"
  shows "a \<in> set result \<or> (\<exists>s l. byScript s = Some l \<and> rawOut a \<in> set l)"
  using assms
proof (induction ss arbitrary: cp result)
  case Nil
  then show ?case by simp
next
  case (Cons s ss)
  show ?case
  proof (cases "db mg (accountCPKey X (Sum256 X s))")
    case None
    with Cons.prems have "a \<in> set (loadLoop X mg byScript ss cp result)" by simp
    then show ?thesis by (rule Cons.IH)
  next
    case (Some bs)
    obtain cp' e where dec: "jsonUnmarshalCP X bs cp = (cp', e)"
      by (cases "jsonUnmarshalCP X bs cp")
    show ?thesis
    proof (cases e)
      case err: (Some err)
      with Cons.prems Some dec have "a \<in> set (loadLoop X mg byScript ss cp' result)" by simp
      then show ?thesis by (rule Cons.IH)
    next
      case None
      note ok = None
      show ?thesis
      proof (cases "db mg (accountKey X (cpAccountID cp'))")
        case None
        with Cons.prems Some dec ok have "a \<in> set (loadLoop X mg byScript ss cp' result)" by simp
        then show ?thesis by (rule Cons.IH)
      next
        case ex: (Some isExist)
        let ?grp = "case byScript s of None \<Rightarrow> [] | Some l \<Rightarrow> l"
        from Cons.prems Some dec ok ex
        have "a \<in> set (loadLoop X mg byScript ss cp' (result @ map (newOut cp') ?grp))" by simp
        from Cons.IH [OF this]
        consider "a \<in> set result" | "a \<in> set (map (newOut cp') ?grp)"
          | "\<exists>s l. byScript s = Some l \<and> rawOut a \<in> set l" by auto
        then show ?thesis
        proof cases
          case 1
          then show ?thesis by simp
        next
          case 2
          then have r: "rawOut a \<in> set ?grp" by (auto simp add: newOut_def)
          then obtain l where "byScript s = Some l" "rawOut a \<in> set l"
            by (cases "byScript s") auto
          then show ?thesis by blast
        next
          case 3
          then show ?thesis by simp
        qed
      qed
    qed
  qed
qed

lemma loadAccountInfo_subset:
  assumes "a \<in> set (loadAccountInfo X mg outs)"
  shows "rawOut a \<in> set outs"
proof -
  from loadLoop_subset [OF assms [unfolded loadAccountInfo_def]]
  obtain s l where l: "outsByScript outs s = Some l" "rawOut a \<in> set l" by auto
  from l(1) have "l = filter (\<lambda>out. ControlProgram out = s) outs"
    by (simp add: outsByScript_eq split: if_splits)
  with l(2) show ?thesis by simp
qed

text \<open>
  On a whole registry the carried \<^verbatim>\<open>cp\<close> does not show: each key is annotated from its
  own record.
\<close>

lemma lookupCP_carried:
  assumes whole: "wholeRegistry X mg"
    and bs: "db mg (accountCPKey X (Sum256 X s)) = Some bs"
  shows "lookupCP X mg s =
     (case jsonUnmarshalCP X bs cp of
        (cp', Some err) \<Rightarrow> None
      | (cp', None) \<Rightarrow>
          (case db mg (accountKey X (cpAccountID cp')) of None \<Rightarrow> None | Some isExist \<Rightarrow> Some cp'))"
proof -
  from whole bs have w: "wholeRecord X bs" unfolding wholeRegistry_def by blast
  obtain c e where d: "jsonUnmarshalCP X bs cp = (c, e)" by (cases "jsonUnmarshalCP X bs cp")
  obtain c0 e0 where d0: "jsonUnmarshalCP X bs zeroCP = (c0, e0)"
    by (cases "jsonUnmarshalCP X bs zeroCP")
  from w have "snd (jsonUnmarshalCP X bs cp) = snd (jsonUnmarshalCP X bs zeroCP)"
    unfolding wholeRecord_def by blast
  with d d0 have e: "e0 = e" by simp
  show ?thesis
  proof (cases e)
    case None
    from w have "snd (jsonUnmarshalCP X bs cp) = None \<longrightarrow>
        fst (jsonUnmarshalCP X bs cp) = fst (jsonUnmarshalCP X bs zeroCP)"
      unfolding wholeRecord_def by blast
    with d d0 None have "c0 = c" by simp
    with d d0 e None bs show ?thesis by (simp add: lookupCP_def)
  next
    case (Some err)
    with d d0 e bs show ?thesis by (simp add: lookupCP_def)
  qed
qed

lemma loadLoop_whole:
  assumes whole: "wholeRegistry X mg"
  shows "loadLoop X mg byScript ss cp result =
     result @ concat (map (\<lambda>s. case lookupCP X mg s of
                                None \<Rightarrow> []
                              | Some c \<Rightarrow> map (newOut c)
                                           (case byScript s of None \<Rightarrow> [] | Some l \<Rightarrow> l)) ss)"
proof (induction ss arbitrary: cp result)
  case Nil
  then show ?case by simp
next
  case (Cons s ss)
  show ?case
  proof (cases "db mg (accountCPKey X (Sum256 X s))")
    case None
    then have "lookupCP X mg s = None" by (simp add: lookupCP_def)
    with None Cons.IH [of cp result] show ?thesis by simp
  next
    case (Some bs)
    note lk = lookupCP_carried [OF whole Some, of cp]
    obtain cp' e where dec: "jsonUnmarshalCP X bs cp = (cp', e)"
      by (cases "jsonUnmarshalCP X bs cp")
    show ?thesis
    proof (cases e)
      case err: (Some err)
      with lk dec have "lookupCP X mg s = None" by simp
      with Some dec err Cons.IH [of cp' result] show ?thesis by simp
    next
      case None
      note ok = None
      show ?thesis
      proof (cases "db mg (accountKey X (cpAccountID cp'))")
        case None
        with lk dec ok have "lookupCP X mg s = None" by simp
        with Some dec ok None Cons.IH [of cp' result] show ?thesis by simp
      next
        case ex: (Some isExist)
        with lk dec ok have "lookupCP X mg s = Some cp'" by simp
        with Some dec ok ex
          Cons.IH [of cp' "result @ map (newOut cp') (case byScript s of None \<Rightarrow> [] | Some l \<Rightarrow> l)"]
        show ?thesis by simp
      qed
    qed
  qed
qed

lemma loadAccountInfo_alt:
  assumes "wholeRegistry X mg"
  shows "loadAccountInfo X mg outs =
     concat (map (\<lambda>s. case lookupCP X mg s of
                         None \<Rightarrow> []
                       | Some cp \<Rightarrow> map (newOut cp) (filter (\<lambda>out. ControlProgram out = s) outs))
                 (rangeOrder X (remdups (map ControlProgram outs))))"
  unfolding loadAccountInfo_def loadLoop_whole [OF assms] outsByScript_group by simp

lemma loadAccountInfo_sound:
  assumes whole: "wholeRegistry X mg" and "a \<in> set (loadAccountInfo X mg outs)"
  shows "case lookupCP X mg (ControlProgram (rawOut a)) of None \<Rightarrow> False | Some cp \<Rightarrow> a = newOut cp (rawOut a)"
proof -
  from assms(2) obtain s where s: "s \<in> set (rangeOrder X (remdups (map ControlProgram outs)))"
    and a: "a \<in> set (case lookupCP X mg s of
                         None \<Rightarrow> []
                       | Some cp \<Rightarrow> map (newOut cp) (filter (\<lambda>out. ControlProgram out = s) outs))"
    unfolding loadAccountInfo_alt [OF whole] by auto
  show ?thesis
    using a by (cases "lookupCP X mg s") (auto simp add: newOut_def)
qed

lemma loadAccountInfo_complete:
  assumes whole: "wholeRegistry X mg"
    and perm: "set (rangeOrder X (remdups (map ControlProgram outs))) = set (remdups (map ControlProgram outs))"
    and "out \<in> set outs" and "lookupCP X mg (ControlProgram out) = Some cp"
  shows "newOut cp out \<in> set (loadAccountInfo X mg outs)"
proof -
  let ?s = "ControlProgram out"
  have "?s \<in> set (rangeOrder X (remdups (map ControlProgram outs)))"
    using assms(3) perm by auto
  moreover have "newOut cp out \<in> set (case lookupCP X mg ?s of
                         None \<Rightarrow> []
                       | Some cp \<Rightarrow> map (newOut cp) (filter (\<lambda>out. ControlProgram out = ?s) outs))"
    using assms(3,4) by simp
  ultimately show ?thesis unfolding loadAccountInfo_alt [OF whole] set_concat set_map by blast
qed

subsection \<open>Key separation\<close>

lemma Write_keeps_walletkey:
  assumes "\<forall>x \<in> set ops. \<exists>n. op_key x = accountUTXOKey n"
  shows "Write (batch @ ops) d walletkey = Write batch d walletkey"
proof -
  have "walletkey \<notin> op_key ` set ops"
    using assms accountUTXOKey_not_walletkey by (metis imageE)
  then show ?thesis by (simp add: Write_append Write_other_key)
qed

text \<open>
  Claim C9. Every key built by \<^verbatim>\<open>accountUTXOKey\<close> starts with \<open>ACU:\<close> and differs from
  \<^verbatim>\<open>walletkey\<close>. So, for every batch and database, what \<^verbatim>\<open>upsertConfirmedAccountOutputs\<close>,
  \<^verbatim>\<open>BuildAccountUTXOs\<close> and \<^verbatim>\<open>ReverseAccountUTXOs\<close> stage leaves the record under
  \<^verbatim>\<open>walletkey\<close> as the batch had it, and staging the checkpoint leaves every UTXO record
  as the batch had it.
\<close>

theorem utxo_keys_apart_from_walletkey:
  "take 4 (accountUTXOKey name) = ''ACU:''
   \<and> accountUTXOKey name \<noteq> walletkey
   \<and> Write (fst (upsertConfirmedAccountOutputs X outs block batch)) d walletkey
       = Write batch d walletkey
   \<and> Write (fst (BuildAccountUTXOs X mg batch block)) d walletkey = Write batch d walletkey
   \<and> Write (fst (ReverseAccountUTXOs X mg batch block)) d walletkey = Write batch d walletkey
   \<and> Write (batch @ [BSet walletkey raw]) d (accountUTXOKey name)
       = Write batch d (accountUTXOKey name)"
proof (intro conjI)
  show "take 4 (accountUTXOKey name) = ''ACU:''"
    by (simp add: accountUTXOKey_def UTXOPreFix_def)
  show "accountUTXOKey name \<noteq> walletkey"
    by (rule accountUTXOKey_not_walletkey)
  show "Write (fst (upsertConfirmedAccountOutputs X outs block batch)) d walletkey
       = Write batch d walletkey"
  proof -
    obtain ops where ops: "fst (upsertConfirmedAccountOutputs X outs block batch) = batch @ ops"
      "\<forall>x \<in> set ops. \<exists>out \<in> set outs. \<exists>v. x = BSet (accountUTXOKey (OutputID (rawOut out))) v"
      using upsert_appends by blast
    from ops(2) have "\<forall>x \<in> set ops. \<exists>n. op_key x = accountUTXOKey n"
      by (metis op_key.simps(1))
    then show ?thesis unfolding ops(1) by (rule Write_keeps_walletkey)
  qed
  show "Write (fst (BuildAccountUTXOs X mg batch block)) d walletkey = Write batch d walletkey"
  proof -
    obtain sets where ops: "fst (BuildAccountUTXOs X mg batch block) =
            batch @ map (\<lambda>i. BDelete (accountUTXOKey i)) (prevoutDBKeys (Transactions block)) @ sets"
      "\<forall>x \<in> set sets. \<exists>out \<in> set (loadAccountInfo X mg (concat (map buildOutsTx (Transactions block)))).
            \<exists>v. x = BSet (accountUTXOKey (OutputID (rawOut out))) v"
      using Build_appends by blast
    have "\<forall>x \<in> set (map (\<lambda>i. BDelete (accountUTXOKey i)) (prevoutDBKeys (Transactions block)) @ sets).
            \<exists>n. op_key x = accountUTXOKey n"
    proof
      fix x assume "x \<in> set (map (\<lambda>i. BDelete (accountUTXOKey i)) (prevoutDBKeys (Transactions block)) @ sets)"
      then consider "x \<in> set (map (\<lambda>i. BDelete (accountUTXOKey i)) (prevoutDBKeys (Transactions block)))"
        | "x \<in> set sets" by auto
      then show "\<exists>n. op_key x = accountUTXOKey n"
      proof cases
        case 1
        then show ?thesis by auto
      next
        case 2
        with ops(2) show ?thesis by (metis op_key.simps(1))
      qed
    qed
    then show ?thesis unfolding ops(1) by (rule Write_keeps_walletkey)
  qed
  show "Write (fst (ReverseAccountUTXOs X mg batch block)) d walletkey = Write batch d walletkey"
  proof -
    obtain sets dels where ops: "fst (ReverseAccountUTXOs X mg batch block) = batch @ sets @ dels"
      "\<forall>x \<in> set sets. \<exists>out \<in> set (loadAccountInfo X mg (concat (map reverseOutsTx (Transactions block)))).
            \<exists>v. x = BSet (accountUTXOKey (OutputID (rawOut out))) v"
      "\<forall>x \<in> set dels. \<exists>i \<in> set (concat (map newOutputIdsTx (Transactions block))).
            x = BDelete (accountUTXOKey i)"
      using Reverse_appends by blast
    have "\<forall>x \<in> set (sets @ dels). \<exists>n. op_key x = accountUTXOKey n"
    proof
      fix x assume "x \<in> set (sets @ dels)"
      then consider "x \<in> set sets" | "x \<in> set dels" by auto
      then show "\<exists>n. op_key x = accountUTXOKey n"
      proof cases
        case 1
        with ops(2) show ?thesis by (metis op_key.simps(1))
      next
        case 2
        with ops(3) show ?thesis by (metis op_key.simps(2))
      qed
    qed
    then show ?thesis unfolding ops(1) by (rule Write_keeps_walletkey)
  qed
  show "Write (batch @ [BSet walletkey raw]) d (accountUTXOKey name)
       = Write batch d (accountUTXOKey name)"
    using accountUTXOKey_not_walletkey [of name] by (simp add: Write_append Write_def)
qed

subsection \<open>The annotation join\<close>








lemma exX_whole: "wholeRegistry exX mg"
  by (simp add: wholeRegistry_def wholeRecord_def exX_def)

lemmas ex_defs = exX_def exManager_def exAccounts_def exOut_def exTxOut_def exTx1_def
  exBlock1_def exTx2_def exBlock2_def exTxSpend_def exBlockChained_def exChain_def
  exBlockOrphan_def exChainGone_def exManagerAt_def exRun_def exXfail_def
  exTxFork_def exBlockFork_def exLedger1_def exStore1_def

lemmas model_defs = BuildAccountUTXOs_def ReverseAccountUTXOs_def prevoutDBKeys_def SpendOf_def
  buildOutsTx_def reverseOutsTx_def newOutputIdsTx_def isOutputEntry_def loadAccountInfo_def
  lookupCP_def outsByScript_def newOut_def toUTXO_def accountUTXOKey_def UTXOPreFix_def
  annotateOne_def zeroCP_def




subsection \<open>Retirements\<close>

lemma buildOutsTx_resolves:
  assumes "r \<in> set (buildOutsTx tx)"
  shows "\<exists>out. (OutputID r, out) \<in> set (zip (ResultIds tx) (Outputs tx))" and "isOutputEntry tx (OutputID r)"
proof -
  from assms obtain j out where
    z: "(j, OutputID r, out) \<in> set (zip [0 ..< length (Outputs tx)] (zip (ResultIds tx) (Outputs tx)))"
    and c: "case Entries tx (OutputID r) of
              Some (Output src prog dat) \<Rightarrow>
                r = \<lparr>OutputID = OutputID r, assetAmount = outAssetAmount out,
                     ControlProgram = outControlProgram out, txHash = ID tx,
                     outputIndex = of_nat j, sourceID = Ref src,
                     sourcePos = Position src, refData = dat\<rparr>
            | _ \<Rightarrow> False"
    unfolding in_buildOutsTx by blast
  from z show "\<exists>out. (OutputID r, out) \<in> set (zip (ResultIds tx) (Outputs tx))"
    by (meson in_set_zipE)
  from c show "isOutputEntry tx (OutputID r)"
    by (cases "Entries tx (OutputID r)") (auto simp add: isOutputEntry_def split: Entry.splits)
qed

text \<open>
  Claim C8. Every record that \<^verbatim>\<open>BuildAccountUTXOs\<close> stages is keyed by the result
  identifier of a transaction output of the block whose entry is an output entry, and
  every delete that \<^verbatim>\<open>ReverseAccountUTXOs\<close> stages is keyed by such an identifier too:
  a result whose entry is a retirement is neither written by the forward application nor
  deleted by the rollback.
\<close>

theorem only_output_entries_are_staged:
  "(\<exists>ops. fst (BuildAccountUTXOs X mg batch b) = batch @ ops
      \<and> (\<forall>k v. BSet k v \<in> set ops \<longrightarrow>
            (\<exists>tx \<in> set (Transactions b). \<exists>i out. k = accountUTXOKey i
                \<and> (i, out) \<in> set (zip (ResultIds tx) (Outputs tx)) \<and> isOutputEntry tx i)))
   \<and> (\<exists>ops. fst (ReverseAccountUTXOs X mg batch b) = batch @ ops
      \<and> (\<forall>k. BDelete k \<in> set ops \<longrightarrow>
            (\<exists>tx \<in> set (Transactions b). \<exists>i out. k = accountUTXOKey i
                \<and> (i, out) \<in> set (zip (ResultIds tx) (Outputs tx)) \<and> isOutputEntry tx i)))
   \<and> (Entries tx' i' = Some (Retirement src dat) \<longrightarrow> \<not> isOutputEntry tx' i')"
proof (intro conjI)
  show "\<exists>ops. fst (BuildAccountUTXOs X mg batch b) = batch @ ops
      \<and> (\<forall>k v. BSet k v \<in> set ops \<longrightarrow>
            (\<exists>tx \<in> set (Transactions b). \<exists>i out. k = accountUTXOKey i
                \<and> (i, out) \<in> set (zip (ResultIds tx) (Outputs tx)) \<and> isOutputEntry tx i))"
  proof -
    obtain sets where ops: "fst (BuildAccountUTXOs X mg batch b) =
            batch @ map (\<lambda>i. BDelete (accountUTXOKey i)) (prevoutDBKeys (Transactions b)) @ sets"
      "\<forall>x \<in> set sets. \<exists>out \<in> set (loadAccountInfo X mg (concat (map buildOutsTx (Transactions b)))).
            \<exists>v. x = BSet (accountUTXOKey (OutputID (rawOut out))) v"
      using Build_appends by blast
    have "\<forall>k v. BSet k v \<in> set (map (\<lambda>i. BDelete (accountUTXOKey i)) (prevoutDBKeys (Transactions b)) @ sets) \<longrightarrow>
            (\<exists>tx \<in> set (Transactions b). \<exists>i out. k = accountUTXOKey i
                \<and> (i, out) \<in> set (zip (ResultIds tx) (Outputs tx)) \<and> isOutputEntry tx i)"
    proof (intro allI impI)
      fix k v
      assume "BSet k v \<in> set (map (\<lambda>i. BDelete (accountUTXOKey i)) (prevoutDBKeys (Transactions b)) @ sets)"
      then have "BSet k v \<in> set sets" by auto
      with ops(2) obtain a where a: "a \<in> set (loadAccountInfo X mg (concat (map buildOutsTx (Transactions b))))"
        "k = accountUTXOKey (OutputID (rawOut a))" by blast
      from loadAccountInfo_subset [OF a(1)] obtain tx where tx: "tx \<in> set (Transactions b)"
        "rawOut a \<in> set (buildOutsTx tx)" by auto
      from buildOutsTx_resolves [OF tx(2)] tx(1) a(2)
      show "\<exists>tx \<in> set (Transactions b). \<exists>i out. k = accountUTXOKey i
                \<and> (i, out) \<in> set (zip (ResultIds tx) (Outputs tx)) \<and> isOutputEntry tx i"
        by blast
    qed
    with ops(1) show ?thesis by blast
  qed
  show "\<exists>ops. fst (ReverseAccountUTXOs X mg batch b) = batch @ ops
      \<and> (\<forall>k. BDelete k \<in> set ops \<longrightarrow>
            (\<exists>tx \<in> set (Transactions b). \<exists>i out. k = accountUTXOKey i
                \<and> (i, out) \<in> set (zip (ResultIds tx) (Outputs tx)) \<and> isOutputEntry tx i))"
  proof -
    obtain sets dels where ops: "fst (ReverseAccountUTXOs X mg batch b) = batch @ sets @ dels"
      "\<forall>x \<in> set sets. \<exists>out \<in> set (loadAccountInfo X mg (concat (map reverseOutsTx (Transactions b)))).
            \<exists>v. x = BSet (accountUTXOKey (OutputID (rawOut out))) v"
      "\<forall>x \<in> set dels. \<exists>i \<in> set (concat (map newOutputIdsTx (Transactions b))).
            x = BDelete (accountUTXOKey i)"
      using Reverse_appends by blast
    have "\<forall>k. BDelete k \<in> set (sets @ dels) \<longrightarrow>
            (\<exists>tx \<in> set (Transactions b). \<exists>i out. k = accountUTXOKey i
                \<and> (i, out) \<in> set (zip (ResultIds tx) (Outputs tx)) \<and> isOutputEntry tx i)"
    proof (intro allI impI)
      fix k assume "BDelete k \<in> set (sets @ dels)"
      moreover have "BDelete k \<notin> set sets" using ops(2) by blast
      ultimately have "BDelete k \<in> set dels" by simp
      with ops(3) obtain i where i: "i \<in> set (concat (map newOutputIdsTx (Transactions b)))"
        "k = accountUTXOKey i" by blast
      from i(1) obtain tx where tx: "tx \<in> set (Transactions b)" "i \<in> set (newOutputIdsTx tx)" by auto
      from tx(2) have "(\<exists>out. (i, out) \<in> set (zip (ResultIds tx) (Outputs tx))) \<and> isOutputEntry tx i"
        by (simp only: newOutputIdsTx_iff)
      with tx(1) i(2)
      show "\<exists>tx \<in> set (Transactions b). \<exists>i out. k = accountUTXOKey i
                \<and> (i, out) \<in> set (zip (ResultIds tx) (Outputs tx)) \<and> isOutputEntry tx i"
        by blast
    qed
    with ops(1) show ?thesis by blast
  qed
  show "Entries tx' i' = Some (Retirement src dat) \<longrightarrow> \<not> isOutputEntry tx' i'"
    by (simp add: isOutputEntry_def)
qed

theorem only_output_entries_are_staged_witness:
  "fst (BuildAccountUTXOs exX (exManager Map.empty) [] exBlock2)
     = [BDelete ''ACU:O1'', BSet ''ACU:O2'' ''O2/acc1/M2'']
   \<and> fst (ReverseAccountUTXOs exX (exManager Map.empty) [] exBlock2)
     = [BSet ''ACU:O1'' ''O1/acc1/M1'', BDelete ''ACU:O2'', BDelete ''ACU:O3'']
   \<and> Entries exTx2 ''R1'' = Some (Retirement \<lparr>Ref = ''M2'', Value = \<lparr>AssetId = ''A'', Amount = 10\<rparr>,
                                                Position = 2\<rparr> ''D'')
   \<and> \<not> isOutputEntry exTx2 ''R1''
   \<and> (\<exists>tx \<in> set (Transactions exBlock2). \<exists>i out. ''ACU:O2'' = accountUTXOKey i
                \<and> (i, out) \<in> set (zip (ResultIds tx) (Outputs tx)) \<and> isOutputEntry tx i)"
proof -
  have b: "fst (BuildAccountUTXOs exX (exManager Map.empty) [] exBlock2)
     = [BDelete ''ACU:O1'', BSet ''ACU:O2'' ''O2/acc1/M2'']"
    by (simp add: ex_defs model_defs)
  have r: "fst (ReverseAccountUTXOs exX (exManager Map.empty) [] exBlock2)
     = [BSet ''ACU:O1'' ''O1/acc1/M1'', BDelete ''ACU:O2'', BDelete ''ACU:O3'']"
    by (simp add: ex_defs model_defs)
  have e: "Entries exTx2 ''R1'' = Some (Retirement \<lparr>Ref = ''M2'', Value = \<lparr>AssetId = ''A'', Amount = 10\<rparr>,
                                                Position = 2\<rparr> ''D'')"
    by (simp add: ex_defs)
  note t = only_output_entries_are_staged [of exX "exManager Map.empty" "[]" exBlock2 exTx2 "''R1''"
      "\<lparr>Ref = ''M2'', Value = \<lparr>AssetId = ''A'', Amount = 10\<rparr>, Position = 2\<rparr>" "''D''"]
  from t e have n: "\<not> isOutputEntry exTx2 ''R1''" by blast
  from t obtain ops where ops: "fst (BuildAccountUTXOs exX (exManager Map.empty) [] exBlock2) = [] @ ops"
    "\<forall>k v. BSet k v \<in> set ops \<longrightarrow>
            (\<exists>tx \<in> set (Transactions exBlock2). \<exists>i out. k = accountUTXOKey i
                \<and> (i, out) \<in> set (zip (ResultIds tx) (Outputs tx)) \<and> isOutputEntry tx i)"
    by blast
  from ops(1) b have "ops = [BDelete ''ACU:O1'', BSet ''ACU:O2'' ''O2/acc1/M2'']" by simp
  then have "BSet ''ACU:O2'' ''O2/acc1/M2'' \<in> set ops" by simp
  with ops(2) have "\<exists>tx \<in> set (Transactions exBlock2). \<exists>i out. ''ACU:O2'' = accountUTXOKey i
                \<and> (i, out) \<in> set (zip (ResultIds tx) (Outputs tx)) \<and> isOutputEntry tx i"
    by blast
  with b r e n show ?thesis by blast
qed

subsection \<open>The synchronisation loop\<close>

lemma zeroHash_length: "length zeroHash = 32"
  by (simp add: zeroHash_def)

lemma zeroHash_neq: "length h \<noteq> 32 \<Longrightarrow> h \<noteq> zeroHash" "length h \<noteq> 32 \<Longrightarrow> zeroHash \<noteq> h"
  using zeroHash_length by auto

lemma commitRun_checkpoint:
  "Height (wallet (m (commitRun X r))) = Height (wallet (m r))"
  "Hash (wallet (m (commitRun X r))) = Hash (wallet (m r))"
  "db (m (commitRun X r)) = db (m r)"
  "clock (commitRun X r) = clock r"
  by (simp_all add: commitRun_def commitWalletInfo_def Let_def split: sum.splits)

lemma commitRun_clock: "commitRun X (r\<lparr>clock := c\<rparr>) = (commitRun X r)\<lparr>clock := c\<rparr>"
  by (simp add: commitRun_def commitWalletInfo_def Let_def split: sum.splits)

lemma linkage_checkpoint:
  "PreviousBlockHash block = Hash (wallet (m r)) \<Longrightarrow>
     Height (wallet (m (linkage X r block))) = BlockHeight block
     \<and> Hash (wallet (m (linkage X r block))) = BlockHash block"
  by (simp add: linkage_def Let_def commitRun_checkpoint split: prod.splits)

lemma linkage_skip:
  "PreviousBlockHash block \<noteq> Hash (wallet (m r)) \<Longrightarrow> linkage X r block = r"
  by (simp add: linkage_def)

lemma pass_forward:
  assumes "InMainChain (env (clock r)) (Height (wallet (m r))) (Hash (wallet (m r)))"
  shows "WalletUpdate_pass X env r =
     (case fetchNext env (clock r + 1) (Height (wallet (m r)) + 1) of
        Fetched block t' \<Rightarrow> (Continue, linkage X ((commitRun X r)\<lparr>clock := t'\<rparr>) block)
      | WaitForever t' \<Rightarrow> (Blocked, (commitRun X r)\<lparr>clock := t'\<rparr>)
      | FetchFailed err t' \<Rightarrow>
          (Returned, (commitRun X r)\<lparr>logs := logs (commitRun X r) @ [LogError ''wallet get block by height'' err],
                                     clock := t'\<rparr>))"
  using assms
  by (simp add: WalletUpdate_pass_def advance_def Let_def commitRun_clock commitRun_checkpoint
      split: fetch_result.splits)

lemma pass_rollback:
  assumes "\<not> InMainChain (env (clock r)) (Height (wallet (m r))) (Hash (wallet (m r)))"
  shows "WalletUpdate_pass X env r =
     (case GetBlockByHash (env (clock r + 1)) (Hash (wallet (m r))) of
        Inl err \<Rightarrow> (Returned, r\<lparr>logs := logs r @ [LogError ''get block by hash'' err],
                                 clock := clock r + 2\<rparr>)
      | Inr block \<Rightarrow>
          (Continue,
           r\<lparr>m := (m r)\<lparr>wallet := (wallet (m r))\<lparr>Height := BlockHeight block - 1,
                                                  Hash := PreviousBlockHash block\<rparr>\<rparr>,
             storeBatch := fst (ReverseAccountUTXOs X (m r) (storeBatch r) block),
             logs := logs r @ snd (ReverseAccountUTXOs X (m r) (storeBatch r) block)
                      @ [LogInfo ''start rollback this block'' (Height (wallet (m r)))],
             clock := clock r + 2\<rparr>))"
  using assms
  by (simp add: WalletUpdate_pass_def rollback_def Let_def split: sum.splits prod.splits)

text \<open>
  Claim C3. At every arrival at \<^verbatim>\<open>LOOP\<close> with the checkpoint on the main chain, for
  every chain behaviour: when a block is fetched and its \<^verbatim>\<open>PreviousBlockHash\<close> is the
  checkpoint's hash, the checkpoint becomes that block's height and hash; when it is
  not, the state after the pass is the state that the commit of line 106 left (same
  checkpoint, no operation of the block staged or written) and the loop goes on from
  there to \<^verbatim>\<open>LOOP\<close> (the block is looked up again); when no block is fetched the
  checkpoint is unchanged.
\<close>

theorem parent_linkage_gate:
  "InMainChain (env (clock r)) (Height (wallet (m r))) (Hash (wallet (m r))) \<longrightarrow>
     (case fetchNext env (clock r + 1) (Height (wallet (m r)) + 1) of
        Fetched block t' \<Rightarrow>
          fst (WalletUpdate_pass X env r) = Continue
          \<and> (if PreviousBlockHash block = Hash (wallet (m r))
             then Height (wallet (m (snd (WalletUpdate_pass X env r)))) = BlockHeight block
                  \<and> Hash (wallet (m (snd (WalletUpdate_pass X env r)))) = BlockHash block
             else snd (WalletUpdate_pass X env r) = (commitRun X r)\<lparr>clock := t'\<rparr>
                  \<and> Height (wallet (m (snd (WalletUpdate_pass X env r)))) = Height (wallet (m r))
                  \<and> Hash (wallet (m (snd (WalletUpdate_pass X env r)))) = Hash (wallet (m r))
                  \<and> WalletUpdate_loop X (Suc n) env r
                      = WalletUpdate_loop X n env ((commitRun X r)\<lparr>clock := t'\<rparr>))
      | FetchFailed err t' \<Rightarrow>
          Height (wallet (m (snd (WalletUpdate_pass X env r)))) = Height (wallet (m r))
          \<and> Hash (wallet (m (snd (WalletUpdate_pass X env r)))) = Hash (wallet (m r))
      | WaitForever t' \<Rightarrow>
          Height (wallet (m (snd (WalletUpdate_pass X env r)))) = Height (wallet (m r))
          \<and> Hash (wallet (m (snd (WalletUpdate_pass X env r)))) = Hash (wallet (m r)))"
proof
  assume main: "InMainChain (env (clock r)) (Height (wallet (m r))) (Hash (wallet (m r)))"
  note pass = pass_forward [where env = env and r = r and X = X, OF main]
  show "case fetchNext env (clock r + 1) (Height (wallet (m r)) + 1) of
        Fetched block t' \<Rightarrow>
          fst (WalletUpdate_pass X env r) = Continue
          \<and> (if PreviousBlockHash block = Hash (wallet (m r))
             then Height (wallet (m (snd (WalletUpdate_pass X env r)))) = BlockHeight block
                  \<and> Hash (wallet (m (snd (WalletUpdate_pass X env r)))) = BlockHash block
             else snd (WalletUpdate_pass X env r) = (commitRun X r)\<lparr>clock := t'\<rparr>
                  \<and> Height (wallet (m (snd (WalletUpdate_pass X env r)))) = Height (wallet (m r))
                  \<and> Hash (wallet (m (snd (WalletUpdate_pass X env r)))) = Hash (wallet (m r))
                  \<and> WalletUpdate_loop X (Suc n) env r
                      = WalletUpdate_loop X n env ((commitRun X r)\<lparr>clock := t'\<rparr>))
      | FetchFailed err t' \<Rightarrow>
          Height (wallet (m (snd (WalletUpdate_pass X env r)))) = Height (wallet (m r))
          \<and> Hash (wallet (m (snd (WalletUpdate_pass X env r)))) = Hash (wallet (m r))
      | WaitForever t' \<Rightarrow>
          Height (wallet (m (snd (WalletUpdate_pass X env r)))) = Height (wallet (m r))
          \<and> Hash (wallet (m (snd (WalletUpdate_pass X env r)))) = Hash (wallet (m r))"
  proof (cases "fetchNext env (clock r + 1) (Height (wallet (m r)) + 1)")
    case (Fetched block t')
    let ?r1 = "(commitRun X r)\<lparr>clock := t'\<rparr>"
    have p: "WalletUpdate_pass X env r = (Continue, linkage X ?r1 block)"
      using pass Fetched by simp
    have h1: "Hash (wallet (m ?r1)) = Hash (wallet (m r))" "Height (wallet (m ?r1)) = Height (wallet (m r))"
      by (simp_all add: commitRun_checkpoint)
    show ?thesis
    proof (cases "PreviousBlockHash block = Hash (wallet (m r))")
      case True
      then have "PreviousBlockHash block = Hash (wallet (m ?r1))" using h1 by simp
      from linkage_checkpoint [OF this, of X] True Fetched p show ?thesis by simp
    next
      case False
      then have "PreviousBlockHash block \<noteq> Hash (wallet (m ?r1))" using h1 by simp
      then have l: "linkage X ?r1 block = ?r1" by (rule linkage_skip)
      with p have "WalletUpdate_loop X (Suc n) env r = WalletUpdate_loop X n env ?r1" by simp
      with False Fetched p l h1 show ?thesis by simp
    qed
  next
    case (FetchFailed err t')
    with pass show ?thesis by (simp add: commitRun_checkpoint)
  next
    case (WaitForever t')
    with pass show ?thesis by (simp add: commitRun_checkpoint)
  qed
qed

theorem parent_linkage_gate_witness:
  "InMainChain (exChain [exBlockOrphan] []) 0 zeroHash
   \<and> fetchNext (\<lambda>t. exChain [exBlockOrphan] []) 1 1 = Fetched exBlockOrphan 2
   \<and> PreviousBlockHash exBlockOrphan \<noteq> zeroHash
   \<and> snd (WalletUpdate_pass exX (\<lambda>t. exChain [exBlockOrphan] []) (exRun (exManager Map.empty)))
      = \<lparr>m = \<lparr>db = exAccounts,
               wallet = \<lparr>Height = 0, Hash = zeroHash, DB = [walletkey \<mapsto> ''@'' @ zeroHash]\<rparr>\<rparr>,
         storeBatch = [BSet walletkey (''@'' @ zeroHash)], logs = [], clock = 2\<rparr>"
proof -
  have main: "InMainChain (exChain [exBlockOrphan] []) 0 zeroHash"
    by (simp add: exChain_def)
  have f: "fetchNext (\<lambda>t. exChain [exBlockOrphan] []) 1 1 = Fetched exBlockOrphan 2"
    by (simp add: fetchNext_def exChain_def exBlockOrphan_def)
  have p: "PreviousBlockHash exBlockOrphan \<noteq> zeroHash"
    by (simp add: exBlockOrphan_def zeroHash_neq)
  have c: "(commitRun exX (exRun (exManager Map.empty)))\<lparr>clock := 2\<rparr>
      = \<lparr>m = \<lparr>db = exAccounts,
               wallet = \<lparr>Height = 0, Hash = zeroHash, DB = [walletkey \<mapsto> ''@'' @ zeroHash]\<rparr>\<rparr>,
         storeBatch = [BSet walletkey (''@'' @ zeroHash)], logs = [], clock = 2\<rparr>"
    by (simp add: commitRun_def commitWalletInfo_def exRun_def exManager_def exX_def Write_def)
  from parent_linkage_gate [of "\<lambda>t. exChain [exBlockOrphan] []" "exRun (exManager Map.empty)" exX 0]
    main f p c
  show ?thesis by (simp add: exRun_def exManager_def)
qed

text \<open>
  Claim C6. When \<^verbatim>\<open>GetBlockByHash\<close> fails in the rollback loop, the pass logs the error
  and returns with the database, the checkpoint and the batch as they were at
  \<^verbatim>\<open>LOOP\<close>: the database is as the last write left it. When \<^verbatim>\<open>GetBlockByHeight\<close> fails
  after the wait, the pass logs the error and returns in the state that the commit of
  line 106 left: nothing is written after that commit. \<^verbatim>\<open>WalletUpdate\<close> returns in these
  two cases only.
\<close>

theorem fetch_failure_returns:
  "(\<not> InMainChain (env (clock r)) (Height (wallet (m r))) (Hash (wallet (m r)))
      \<and> GetBlockByHash (env (clock r + 1)) (Hash (wallet (m r))) = Inl err \<longrightarrow>
        WalletUpdate_pass X env r
          = (Returned, r\<lparr>logs := logs r @ [LogError ''get block by hash'' err],
                          clock := clock r + 2\<rparr>)
        \<and> WalletUpdate_loop X (Suc n) env r
          = (Returned, r\<lparr>logs := logs r @ [LogError ''get block by hash'' err],
                          clock := clock r + 2\<rparr>)
        \<and> DB (wallet (m (snd (WalletUpdate_pass X env r)))) = DB (wallet (m r)))
   \<and> (InMainChain (env (clock r)) (Height (wallet (m r))) (Hash (wallet (m r)))
      \<and> fetchNext env (clock r + 1) (Height (wallet (m r)) + 1) = FetchFailed err t' \<longrightarrow>
        WalletUpdate_pass X env r
          = (Returned, (commitRun X r)\<lparr>logs := logs (commitRun X r)
                                          @ [LogError ''wallet get block by height'' err],
                                        clock := t'\<rparr>)
        \<and> WalletUpdate_loop X (Suc n) env r
          = (Returned, (commitRun X r)\<lparr>logs := logs (commitRun X r)
                                          @ [LogError ''wallet get block by height'' err],
                                        clock := t'\<rparr>)
        \<and> DB (wallet (m (snd (WalletUpdate_pass X env r)))) = DB (wallet (m (commitRun X r))))
   \<and> (fst (WalletUpdate_pass X env r) = Returned \<longrightarrow>
        (\<not> InMainChain (env (clock r)) (Height (wallet (m r))) (Hash (wallet (m r)))
           \<and> (\<exists>e. GetBlockByHash (env (clock r + 1)) (Hash (wallet (m r))) = Inl e))
        \<or> (InMainChain (env (clock r)) (Height (wallet (m r))) (Hash (wallet (m r)))
           \<and> (\<exists>e t. fetchNext env (clock r + 1) (Height (wallet (m r)) + 1) = FetchFailed e t)))"
proof (intro conjI impI)
  assume a: "\<not> InMainChain (env (clock r)) (Height (wallet (m r))) (Hash (wallet (m r)))
      \<and> GetBlockByHash (env (clock r + 1)) (Hash (wallet (m r))) = Inl err"
  then have p: "WalletUpdate_pass X env r
          = (Returned, r\<lparr>logs := logs r @ [LogError ''get block by hash'' err],
                          clock := clock r + 2\<rparr>)"
    using pass_rollback [of env r X] by simp
  then show "WalletUpdate_pass X env r
          = (Returned, r\<lparr>logs := logs r @ [LogError ''get block by hash'' err],
                          clock := clock r + 2\<rparr>)" .
  from p show "WalletUpdate_loop X (Suc n) env r
          = (Returned, r\<lparr>logs := logs r @ [LogError ''get block by hash'' err],
                          clock := clock r + 2\<rparr>)" by simp
  from p show "DB (wallet (m (snd (WalletUpdate_pass X env r)))) = DB (wallet (m r))" by simp
next
  assume a: "InMainChain (env (clock r)) (Height (wallet (m r))) (Hash (wallet (m r)))
      \<and> fetchNext env (clock r + 1) (Height (wallet (m r)) + 1) = FetchFailed err t'"
  then have p: "WalletUpdate_pass X env r
          = (Returned, (commitRun X r)\<lparr>logs := logs (commitRun X r)
                                          @ [LogError ''wallet get block by height'' err],
                                        clock := t'\<rparr>)"
    using pass_forward [of env r X] by simp
  then show "WalletUpdate_pass X env r
          = (Returned, (commitRun X r)\<lparr>logs := logs (commitRun X r)
                                          @ [LogError ''wallet get block by height'' err],
                                        clock := t'\<rparr>)" .
  from p show "WalletUpdate_loop X (Suc n) env r
          = (Returned, (commitRun X r)\<lparr>logs := logs (commitRun X r)
                                          @ [LogError ''wallet get block by height'' err],
                                        clock := t'\<rparr>)" by simp
  from p show "DB (wallet (m (snd (WalletUpdate_pass X env r)))) = DB (wallet (m (commitRun X r)))"
    by simp
next
  assume ret: "fst (WalletUpdate_pass X env r) = Returned"
  show "(\<not> InMainChain (env (clock r)) (Height (wallet (m r))) (Hash (wallet (m r)))
           \<and> (\<exists>e. GetBlockByHash (env (clock r + 1)) (Hash (wallet (m r))) = Inl e))
        \<or> (InMainChain (env (clock r)) (Height (wallet (m r))) (Hash (wallet (m r)))
           \<and> (\<exists>e t. fetchNext env (clock r + 1) (Height (wallet (m r)) + 1) = FetchFailed e t))"
  proof (cases "InMainChain (env (clock r)) (Height (wallet (m r))) (Hash (wallet (m r)))")
    case True
    from ret pass_forward [where env = env and r = r and X = X, OF True]
    have "\<exists>e t. fetchNext env (clock r + 1) (Height (wallet (m r)) + 1) = FetchFailed e t"
      by (cases "fetchNext env (clock r + 1) (Height (wallet (m r)) + 1)") auto
    with True show ?thesis by blast
  next
    case False
    from ret pass_rollback [where env = env and r = r and X = X, OF False]
    have "\<exists>e. GetBlockByHash (env (clock r + 1)) (Hash (wallet (m r))) = Inl e"
      by (cases "GetBlockByHash (env (clock r + 1)) (Hash (wallet (m r)))") auto
    with False show ?thesis by blast
  qed
qed

theorem fetch_failure_returns_witness:
  "\<not> InMainChain (exChain [exBlock1] []) 1 ''B9''
   \<and> GetBlockByHash (exChain [exBlock1] []) ''B9'' = Inl ''block not found''
   \<and> WalletUpdate exX 1 (\<lambda>t. exChain [exBlock1] []) (exManagerAt 1 ''B9'' [''ACU:O1'' \<mapsto> ''old''])
     = (Returned, \<lparr>m = exManagerAt 1 ''B9'' [''ACU:O1'' \<mapsto> ''old''], storeBatch = [],
                   logs = [LogError ''get block by hash'' ''block not found''], clock = 2\<rparr>)
   \<and> InMainChain exChainGone 0 zeroHash
   \<and> fetchNext (\<lambda>t. exChainGone) 1 1 = FetchFailed ''can't find block in given height'' 4
   \<and> DB (wallet (m (snd (WalletUpdate exX 1 (\<lambda>t. exChainGone) (exManager Map.empty)))))
     = [walletkey \<mapsto> ''@'' @ zeroHash]
   \<and> fst (WalletUpdate exX 1 (\<lambda>t. exChainGone) (exManager Map.empty)) = Returned"
proof -
  let ?r = "exRun (exManagerAt 1 ''B9'' [''ACU:O1'' \<mapsto> ''old''])"
  let ?r' = "exRun (exManager Map.empty)"
  have a1: "\<not> InMainChain (exChain [exBlock1] []) 1 ''B9''"
    by (simp add: exChain_def exBlock1_def)
  have a2: "GetBlockByHash (exChain [exBlock1] []) ''B9'' = Inl ''block not found''"
    by (simp add: exChain_def exBlock1_def)
  have b1: "InMainChain exChainGone 0 zeroHash"
    by (simp add: exChainGone_def exChain_def)
  have b2: "fetchNext (\<lambda>t. exChainGone) 1 1 = FetchFailed ''can't find block in given height'' 4"
    by (simp add: fetchNext_def exChainGone_def exChain_def)
  have c: "DB (wallet (m (commitRun exX ?r'))) = [walletkey \<mapsto> ''@'' @ zeroHash]"
    by (simp add: commitRun_def commitWalletInfo_def exRun_def exManager_def exX_def Write_def)
  note t1 = fetch_failure_returns [of "\<lambda>t. exChain [exBlock1] []" ?r "''block not found''" exX 0]
  note t2 = fetch_failure_returns [of "\<lambda>t. exChainGone" ?r' "''can't find block in given height''" exX 0 4]
  have r1: "WalletUpdate_loop exX (Suc 0) (\<lambda>t. exChain [exBlock1] []) ?r
      = (Returned, ?r\<lparr>logs := logs ?r @ [LogError ''get block by hash'' ''block not found''],
                        clock := clock ?r + 2\<rparr>)"
    using t1 a1 a2 by (simp add: exRun_def exManagerAt_def)
  have r2: "WalletUpdate_loop exX (Suc 0) (\<lambda>t. exChainGone) ?r'
      = (Returned, (commitRun exX ?r')\<lparr>logs := logs (commitRun exX ?r')
                                          @ [LogError ''wallet get block by height'' ''can't find block in given height''],
                                        clock := 4\<rparr>)"
    using t2 b1 b2 by (simp add: exRun_def exManager_def)
  from r1 have w1: "WalletUpdate exX 1 (\<lambda>t. exChain [exBlock1] []) (exManagerAt 1 ''B9'' [''ACU:O1'' \<mapsto> ''old''])
     = (Returned, \<lparr>m = exManagerAt 1 ''B9'' [''ACU:O1'' \<mapsto> ''old''], storeBatch = [],
                   logs = [LogError ''get block by hash'' ''block not found''], clock = 2\<rparr>)"
    by (simp add: WalletUpdate_def exRun_def)
  from r2 c have w2: "DB (wallet (m (snd (WalletUpdate exX 1 (\<lambda>t. exChainGone) (exManager Map.empty)))))
     = [walletkey \<mapsto> ''@'' @ zeroHash]"
    "fst (WalletUpdate exX 1 (\<lambda>t. exChainGone) (exManager Map.empty)) = Returned"
    by (simp_all add: WalletUpdate_def exRun_def)
  from a1 a2 w1 b1 b2 w2 show ?thesis by blast
qed

subsection \<open>Loading the checkpoint\<close>

lemmas run_defs = WalletUpdate_def WalletUpdate_pass_def rollback_def advance_def linkage_def
  fetchNext_def commitRun_def commitWalletInfo_def Write_def walletkey_def

text \<open>
  Claim C4, as stated, fails twice. With the record \<open>##@B2\<close> under the wallet key,
  which decodes to height 2 and hash \<open>B2\<close>, \<^verbatim>\<open>GetWalletInfo\<close> returns the zero checkpoint
  and \<^verbatim>\<open>NewWallet\<close> starts at the zero checkpoint; and with no record at all
  \<^verbatim>\<open>NewWallet\<close> logs no warning.
\<close>

theorem GetWalletInfo_counterexample:
  "jsonUnmarshalWallet exX ''##@B2'' \<lparr>Height = 0, Hash = zeroHash, DB = [walletkey \<mapsto> ''##@B2'']\<rparr>
     = (\<lparr>Height = 2, Hash = ''B2'', DB = [walletkey \<mapsto> ''##@B2'']\<rparr>, None)
   \<and> fst (GetWalletInfo exX \<lparr>Height = 0, Hash = zeroHash, DB = [walletkey \<mapsto> ''##@B2'']\<rparr>)
     = (\<lparr>Height = 0, Hash = zeroHash\<rparr>, None)
   \<and> Height (fst (NewWallet exX [walletkey \<mapsto> ''##@B2''])) = 0
   \<and> Hash (fst (NewWallet exX [walletkey \<mapsto> ''##@B2''])) = zeroHash
   \<and> snd (NewWallet exX Map.empty) = []"
  by (simp add: GetWalletInfo_def NewWallet_def exX_def walletkey_def)

text \<open>
  Claim C4, amended. Loading the checkpoint never fails. When there is no record under
  the wallet key, \<^verbatim>\<open>GetWalletInfo\<close> returns the zero checkpoint with a nil error and
  \<^verbatim>\<open>NewWallet\<close> starts at the zero checkpoint without a warning. When the record fails
  to decode, \<^verbatim>\<open>GetWalletInfo\<close> returns the zero checkpoint with the error, and
  \<^verbatim>\<open>NewWallet\<close> logs the error as a warning and starts at the zero checkpoint.
\<close>

theorem GetWalletInfo_zero_when_unreadable:
  "(DB w walletkey = None \<longrightarrow>
      GetWalletInfo X w = ((\<lparr>Height = 0, Hash = zeroHash\<rparr>, None), w))
   \<and> (d walletkey = None \<longrightarrow>
      NewWallet X d = (\<lparr>Height = 0, Hash = zeroHash, DB = d\<rparr>, []))
   \<and> (DB w walletkey = Some raw \<and> snd (jsonUnmarshalWallet X raw w) = Some err \<longrightarrow>
      fst (GetWalletInfo X w) = (\<lparr>Height = 0, Hash = zeroHash\<rparr>, Some err))
   \<and> (d walletkey = Some raw
      \<and> snd (jsonUnmarshalWallet X raw \<lparr>Height = 0, Hash = zeroHash, DB = d\<rparr>) = Some err \<longrightarrow>
      Height (fst (NewWallet X d)) = 0 \<and> Hash (fst (NewWallet X d)) = zeroHash
      \<and> snd (NewWallet X d) = [LogWarn ''get wallet info'' err])"
proof -
  have c1: "DB w walletkey = None \<longrightarrow>
      GetWalletInfo X w = ((\<lparr>Height = 0, Hash = zeroHash\<rparr>, None), w)"
    by (simp add: GetWalletInfo_def)
  have c2: "d walletkey = None \<longrightarrow>
      NewWallet X d = (\<lparr>Height = 0, Hash = zeroHash, DB = d\<rparr>, [])"
    by (simp add: NewWallet_def GetWalletInfo_def)
  have c3: "DB w walletkey = Some raw \<and> snd (jsonUnmarshalWallet X raw w) = Some err \<longrightarrow>
      fst (GetWalletInfo X w) = (\<lparr>Height = 0, Hash = zeroHash\<rparr>, Some err)"
  proof
    assume a: "DB w walletkey = Some raw \<and> snd (jsonUnmarshalWallet X raw w) = Some err"
    obtain w' where "jsonUnmarshalWallet X raw w = (w', Some err)"
      using a by (cases "jsonUnmarshalWallet X raw w") auto
    with a show "fst (GetWalletInfo X w) = (\<lparr>Height = 0, Hash = zeroHash\<rparr>, Some err)"
      by (simp add: GetWalletInfo_def)
  qed
  have c4: "d walletkey = Some raw
      \<and> snd (jsonUnmarshalWallet X raw \<lparr>Height = 0, Hash = zeroHash, DB = d\<rparr>) = Some err \<longrightarrow>
      Height (fst (NewWallet X d)) = 0 \<and> Hash (fst (NewWallet X d)) = zeroHash
      \<and> snd (NewWallet X d) = [LogWarn ''get wallet info'' err]"
  proof
    let ?w = "\<lparr>Height = 0, Hash = zeroHash, DB = d\<rparr>"
    assume a: "d walletkey = Some raw \<and> snd (jsonUnmarshalWallet X raw ?w) = Some err"
    obtain w' where w': "jsonUnmarshalWallet X raw ?w = (w', Some err)"
      using a by (cases "jsonUnmarshalWallet X raw ?w") auto
    with a have "NewWallet X d = (w'\<lparr>Height := 0, Hash := zeroHash\<rparr>, [LogWarn ''get wallet info'' err])"
      by (simp add: NewWallet_def GetWalletInfo_def)
    then show "Height (fst (NewWallet X d)) = 0 \<and> Hash (fst (NewWallet X d)) = zeroHash
      \<and> snd (NewWallet X d) = [LogWarn ''get wallet info'' err]"
      by simp
  qed
  from c1 c2 c3 c4 show ?thesis by blast
qed

theorem GetWalletInfo_zero_when_unreadable_witness:
  "Map.empty walletkey = None
   \<and> NewWallet exX Map.empty = (\<lparr>Height = 0, Hash = zeroHash, DB = Map.empty\<rparr>, [])
   \<and> [walletkey \<mapsto> ''garbage''] walletkey = Some ''garbage''
   \<and> snd (jsonUnmarshalWallet exX ''garbage'' \<lparr>Height = 0, Hash = zeroHash, DB = [walletkey \<mapsto> ''garbage'']\<rparr>)
       = Some ''invalid character''
   \<and> Height (fst (NewWallet exX [walletkey \<mapsto> ''garbage''])) = 0
   \<and> Hash (fst (NewWallet exX [walletkey \<mapsto> ''garbage''])) = zeroHash
   \<and> snd (NewWallet exX [walletkey \<mapsto> ''garbage'']) = [LogWarn ''get wallet info'' ''invalid character'']
   \<and> fst (GetWalletInfo exX \<lparr>Height = 0, Hash = zeroHash, DB = [walletkey \<mapsto> ''garbage'']\<rparr>)
       = (\<lparr>Height = 0, Hash = zeroHash\<rparr>, Some ''invalid character'')"
proof -
  let ?d = "[walletkey \<mapsto> ''garbage'']"
  let ?w = "\<lparr>Height = 0, Hash = zeroHash, DB = ?d\<rparr>"
  have e: "(Map.empty :: DB) walletkey = None" by simp
  have s: "?d walletkey = Some ''garbage''" by simp
  have u: "snd (jsonUnmarshalWallet exX ''garbage'' ?w) = Some ''invalid character''"
    by (simp add: exX_def)
  note t1 = GetWalletInfo_zero_when_unreadable [where w = ?w and d = Map.empty and X = exX
      and raw = "''garbage''" and err = "''invalid character''"]
  note t2 = GetWalletInfo_zero_when_unreadable [where w = ?w and d = ?d and X = exX
      and raw = "''garbage''" and err = "''invalid character''"]
  from t1 e have n: "NewWallet exX Map.empty = (\<lparr>Height = 0, Hash = zeroHash, DB = Map.empty\<rparr>, [])"
    by blast
  from t2 s u have g: "Height (fst (NewWallet exX ?d)) = 0 \<and> Hash (fst (NewWallet exX ?d)) = zeroHash
      \<and> snd (NewWallet exX ?d) = [LogWarn ''get wallet info'' ''invalid character'']"
    by blast
  have "DB ?w walletkey = Some ''garbage''" by simp
  with t2 u have f: "fst (GetWalletInfo exX ?w) = (\<lparr>Height = 0, Hash = zeroHash\<rparr>, Some ''invalid character'')"
    by blast
  from e n s u g f show ?thesis by blast
qed

subsection \<open>A failed serialisation of the checkpoint\<close>

text \<open>
  Claim C7, as stated, fails. The checkpoint encoder of \<open>exXfail\<close> fails at height 0.
  The wallet stands on the side block \<open>F1\<close>; the first pass rolls it back and stages the
  delete of \<open>O9\<close>; in the second pass the commit of line 106 fails and is logged, and the
  pass goes on: it fetches block 1, applies it and commits. The run has not returned,
  and the delete staged before the failed commit has reached the database.
\<close>

theorem commit_failure_counterexample:
  "jsonMarshalInfo exXfail \<lparr>Height = 0, Hash = zeroHash\<rparr> = Inl ''unsupported value''
   \<and> fst (WalletUpdate exXfail 2 (\<lambda>t. exChain [exBlock1] [exBlockFork])
             (exManagerAt 1 ''F1'' [''ACU:O9'' \<mapsto> ''O9/acc1/M9'', walletkey \<mapsto> ''#@F1''])) = Continue
   \<and> logs (snd (WalletUpdate exXfail 2 (\<lambda>t. exChain [exBlock1] [exBlockFork])
             (exManagerAt 1 ''F1'' [''ACU:O9'' \<mapsto> ''O9/acc1/M9'', walletkey \<mapsto> ''#@F1''])))
      = [LogInfo ''start rollback this block'' 1, LogError ''save wallet info'' ''unsupported value'']
   \<and> storeBatch (snd (WalletUpdate exXfail 2 (\<lambda>t. exChain [exBlock1] [exBlockFork])
             (exManagerAt 1 ''F1'' [''ACU:O9'' \<mapsto> ''O9/acc1/M9'', walletkey \<mapsto> ''#@F1''])))
      = [BDelete ''ACU:O9'', BSet ''ACU:O1'' ''O1/acc1/M1'', BSet ''walletInfo'' ''#@B1'']
   \<and> DB (wallet (m (snd (WalletUpdate exXfail 2 (\<lambda>t. exChain [exBlock1] [exBlockFork])
             (exManagerAt 1 ''F1'' [''ACU:O9'' \<mapsto> ''O9/acc1/M9'', walletkey \<mapsto> ''#@F1''])))))
        ''ACU:O9'' = None
   \<and> DB (wallet (m (snd (WalletUpdate exXfail 2 (\<lambda>t. exChain [exBlock1] [exBlockFork])
             (exManagerAt 1 ''F1'' [''ACU:O9'' \<mapsto> ''O9/acc1/M9'', walletkey \<mapsto> ''#@F1''])))))
        ''walletInfo'' = Some ''#@B1''"
proof -
  have z: "zeroHash \<noteq> ''F1''" "''F1'' \<noteq> zeroHash" "''B1'' \<noteq> zeroHash" "zeroHash \<noteq> ''B1''"
    by (simp_all add: zeroHash_neq)
  have "WalletUpdate exXfail 2 (\<lambda>t. exChain [exBlock1] [exBlockFork])
             (exManagerAt 1 ''F1'' [''ACU:O9'' \<mapsto> ''O9/acc1/M9'', walletkey \<mapsto> ''#@F1''])
      = (Continue,
         \<lparr>m = \<lparr>db = exAccounts,
                wallet = \<lparr>Height = 1, Hash = ''B1'',
                          DB = foldl applyOp [''ACU:O9'' \<mapsto> ''O9/acc1/M9'', walletkey \<mapsto> ''#@F1'']
                                 [BDelete ''ACU:O9'', BSet ''ACU:O1'' ''O1/acc1/M1'',
                                  BSet ''walletInfo'' ''#@B1'']\<rparr>\<rparr>,
          storeBatch = [BDelete ''ACU:O9'', BSet ''ACU:O1'' ''O1/acc1/M1'', BSet ''walletInfo'' ''#@B1''],
          logs = [LogInfo ''start rollback this block'' 1,
                  LogError ''save wallet info'' ''unsupported value''],
          clock = 4\<rparr>)"
    using z
    by (simp add: numeral_2_eq_2 run_defs ex_defs model_defs Let_def)
  moreover have "jsonMarshalInfo exXfail \<lparr>Height = 0, Hash = zeroHash\<rparr> = Inl ''unsupported value''"
    by (simp add: exXfail_def)
  ultimately show ?thesis by (simp add: walletkey_def)
qed

text \<open>
  Claim C7, amended. When serialising the checkpoint fails in \<^verbatim>\<open>commitWalletInfo\<close>, the
  failure is logged and the call stages and writes nothing: checkpoint, batch and
  database are as before. The pass is not aborted: from \<^verbatim>\<open>LOOP\<close> with the checkpoint on
  the main chain, \<^verbatim>\<open>WalletUpdate\<close> goes on with the block lookup from that state, the
  staged operations still in the batch. A commit that succeeds writes the whole batch,
  the operations staged before it included, with the checkpoint.
\<close>

theorem commit_failure_logged_pass_goes_on:
  "(jsonMarshalInfo X \<lparr>Height = Height (wallet (m r)), Hash = Hash (wallet (m r))\<rparr> = Inl err \<longrightarrow>
      commitWalletInfo X (wallet (m r)) (storeBatch r)
        = (wallet (m r), storeBatch r, [LogError ''save wallet info'' err])
      \<and> commitRun X r = r\<lparr>logs := logs r @ [LogError ''save wallet info'' err]\<rparr>
      \<and> (InMainChain (env (clock r)) (Height (wallet (m r))) (Hash (wallet (m r))) \<longrightarrow>
           WalletUpdate_pass X env r =
             (case fetchNext env (clock r + 1) (Height (wallet (m r)) + 1) of
                Fetched block t' \<Rightarrow>
                  (Continue,
                   linkage X (r\<lparr>logs := logs r @ [LogError ''save wallet info'' err],
                                clock := t'\<rparr>) block)
              | WaitForever t' \<Rightarrow>
                  (Blocked, r\<lparr>logs := logs r @ [LogError ''save wallet info'' err], clock := t'\<rparr>)
              | FetchFailed e t' \<Rightarrow>
                  (Returned,
                   r\<lparr>logs := logs r @ [LogError ''save wallet info'' err,
                                        LogError ''wallet get block by height'' e],
                     clock := t'\<rparr>))))
   \<and> (jsonMarshalInfo X \<lparr>Height = Height (wallet (m r)), Hash = Hash (wallet (m r))\<rparr> = Inr raw \<longrightarrow>
      DB (wallet (m (commitRun X r)))
        = Write (storeBatch r @ [BSet walletkey raw]) (DB (wallet (m r)))
      \<and> storeBatch (commitRun X r) = storeBatch r @ [BSet walletkey raw])"
proof -
  have c1: "jsonMarshalInfo X \<lparr>Height = Height (wallet (m r)), Hash = Hash (wallet (m r))\<rparr> = Inl err \<longrightarrow>
      commitWalletInfo X (wallet (m r)) (storeBatch r)
        = (wallet (m r), storeBatch r, [LogError ''save wallet info'' err])"
    by (simp add: commitWalletInfo_def)
  have c2: "jsonMarshalInfo X \<lparr>Height = Height (wallet (m r)), Hash = Hash (wallet (m r))\<rparr> = Inl err \<longrightarrow>
      commitRun X r = r\<lparr>logs := logs r @ [LogError ''save wallet info'' err]\<rparr>"
    by (simp add: commitRun_def commitWalletInfo_def)
  have c3: "jsonMarshalInfo X \<lparr>Height = Height (wallet (m r)), Hash = Hash (wallet (m r))\<rparr> = Inl err \<longrightarrow>
      InMainChain (env (clock r)) (Height (wallet (m r))) (Hash (wallet (m r))) \<longrightarrow>
           WalletUpdate_pass X env r =
             (case fetchNext env (clock r + 1) (Height (wallet (m r)) + 1) of
                Fetched block t' \<Rightarrow>
                  (Continue,
                   linkage X (r\<lparr>logs := logs r @ [LogError ''save wallet info'' err],
                                clock := t'\<rparr>) block)
              | WaitForever t' \<Rightarrow>
                  (Blocked, r\<lparr>logs := logs r @ [LogError ''save wallet info'' err], clock := t'\<rparr>)
              | FetchFailed e t' \<Rightarrow>
                  (Returned,
                   r\<lparr>logs := logs r @ [LogError ''save wallet info'' err,
                                        LogError ''wallet get block by height'' e],
                     clock := t'\<rparr>))"
  proof (intro impI)
    assume f: "jsonMarshalInfo X \<lparr>Height = Height (wallet (m r)), Hash = Hash (wallet (m r))\<rparr> = Inl err"
      and main: "InMainChain (env (clock r)) (Height (wallet (m r))) (Hash (wallet (m r)))"
    from f c2 have cr: "commitRun X r = r\<lparr>logs := logs r @ [LogError ''save wallet info'' err]\<rparr>"
      by blast
    show "WalletUpdate_pass X env r =
             (case fetchNext env (clock r + 1) (Height (wallet (m r)) + 1) of
                Fetched block t' \<Rightarrow>
                  (Continue,
                   linkage X (r\<lparr>logs := logs r @ [LogError ''save wallet info'' err],
                                clock := t'\<rparr>) block)
              | WaitForever t' \<Rightarrow>
                  (Blocked, r\<lparr>logs := logs r @ [LogError ''save wallet info'' err], clock := t'\<rparr>)
              | FetchFailed e t' \<Rightarrow>
                  (Returned,
                   r\<lparr>logs := logs r @ [LogError ''save wallet info'' err,
                                        LogError ''wallet get block by height'' e],
                     clock := t'\<rparr>))"
      unfolding pass_forward [where env = env and r = r and X = X, OF main] cr
      by (simp split: fetch_result.splits)
  qed
  have c4: "jsonMarshalInfo X \<lparr>Height = Height (wallet (m r)), Hash = Hash (wallet (m r))\<rparr> = Inr raw \<longrightarrow>
      DB (wallet (m (commitRun X r)))
        = Write (storeBatch r @ [BSet walletkey raw]) (DB (wallet (m r)))
      \<and> storeBatch (commitRun X r) = storeBatch r @ [BSet walletkey raw]"
    by (simp add: commitRun_def commitWalletInfo_def Let_def)
  from c1 c2 c3 c4 show ?thesis by blast
qed

theorem commit_failure_logged_pass_goes_on_witness:
  "jsonMarshalInfo exXfail \<lparr>Height = 0, Hash = zeroHash\<rparr> = Inl ''unsupported value''
   \<and> InMainChain (exChain [exBlock1] []) 0 zeroHash
   \<and> fetchNext (\<lambda>t. exChain [exBlock1] []) 1 1 = Fetched exBlock1 2
   \<and> WalletUpdate_pass exXfail (\<lambda>t. exChain [exBlock1] [])
        \<lparr>m = exManager Map.empty, storeBatch = [BDelete ''ACU:O9''], logs = [], clock = 0\<rparr>
      = (Continue,
         linkage exXfail
           \<lparr>m = exManager Map.empty, storeBatch = [BDelete ''ACU:O9''],
             logs = [LogError ''save wallet info'' ''unsupported value''], clock = 2\<rparr> exBlock1)
   \<and> jsonMarshalInfo exX \<lparr>Height = 0, Hash = zeroHash\<rparr> = Inr (''@'' @ zeroHash)
   \<and> storeBatch (commitRun exX
        \<lparr>m = exManager Map.empty, storeBatch = [BDelete ''ACU:O9''], logs = [], clock = 0\<rparr>)
      = [BDelete ''ACU:O9'', BSet walletkey (''@'' @ zeroHash)]"
proof -
  let ?r = "\<lparr>m = exManager Map.empty, storeBatch = [BDelete ''ACU:O9''], logs = [], clock = 0\<rparr>"
  have f: "jsonMarshalInfo exXfail \<lparr>Height = 0, Hash = zeroHash\<rparr> = Inl ''unsupported value''"
    by (simp add: exXfail_def)
  have g: "jsonMarshalInfo exX \<lparr>Height = 0, Hash = zeroHash\<rparr> = Inr (''@'' @ zeroHash)"
    by (simp add: exX_def)
  have main: "InMainChain (exChain [exBlock1] []) 0 zeroHash"
    by (simp add: exChain_def)
  have n: "fetchNext (\<lambda>t. exChain [exBlock1] []) 1 1 = Fetched exBlock1 2"
    by (simp add: fetchNext_def exChain_def exBlock1_def)
  note t1 = commit_failure_logged_pass_goes_on [where X = exXfail and r = ?r
      and err = "''unsupported value''" and env = "\<lambda>t. exChain [exBlock1] []"]
  note t2 = commit_failure_logged_pass_goes_on [where X = exX and r = ?r
      and raw = "''@'' @ zeroHash"]
  have p: "WalletUpdate_pass exXfail (\<lambda>t. exChain [exBlock1] []) ?r
      = (Continue,
         linkage exXfail
           \<lparr>m = exManager Map.empty, storeBatch = [BDelete ''ACU:O9''],
             logs = [LogError ''save wallet info'' ''unsupported value''], clock = 2\<rparr> exBlock1)"
    using t1 f main n by (simp add: exManager_def)
  have s: "storeBatch (commitRun exX ?r) = [BDelete ''ACU:O9'', BSet walletkey (''@'' @ zeroHash)]"
    using t2 g by (simp add: exManager_def)
  from f main n p g s show ?thesis by blast
qed

subsection \<open>An output created and spent in one block\<close>

text \<open>
  Claim C1 at a block whose first transaction creates \<open>O1\<close> for a registered program
  and whose second transaction spends \<open>O1\<close>. \<^verbatim>\<open>BuildAccountUTXOs\<close> stages the delete of
  the spent output before the record of the created one, so after the commit that ends
  the forward application the store holds \<open>O1\<close>, an output spent at the checkpoint.
\<close>

theorem chained_spend_stays_in_store:
  "''O1'' \<in> set (prevoutDBKeys (Transactions exBlockChained))
   \<and> fst (BuildAccountUTXOs exX (exManager Map.empty) [] exBlockChained)
      = [BDelete ''ACU:O1'', BSet ''ACU:O1'' ''O1/acc1/M1'']
   \<and> fst (WalletUpdate exX 1 (\<lambda>t. exChain [exBlockChained] []) (exManager Map.empty)) = Continue
   \<and> Height (wallet (m (snd (WalletUpdate exX 1 (\<lambda>t. exChain [exBlockChained] [])
        (exManager Map.empty))))) = 1
   \<and> Hash (wallet (m (snd (WalletUpdate exX 1 (\<lambda>t. exChain [exBlockChained] [])
        (exManager Map.empty))))) = ''C1''
   \<and> DB (wallet (m (snd (WalletUpdate exX 1 (\<lambda>t. exChain [exBlockChained] [])
        (exManager Map.empty))))) walletkey = Some ''#@C1''
   \<and> DB (wallet (m (snd (WalletUpdate exX 1 (\<lambda>t. exChain [exBlockChained] [])
        (exManager Map.empty))))) (accountUTXOKey ''O1'') = Some ''O1/acc1/M1''"
proof -
  have z: "zeroHash \<noteq> ''C1''" "''C1'' \<noteq> zeroHash"
    by (simp_all add: zeroHash_neq)
  have s: "''O1'' \<in> set (prevoutDBKeys (Transactions exBlockChained))"
    by (simp add: ex_defs model_defs)
  have b: "fst (BuildAccountUTXOs exX (exManager Map.empty) [] exBlockChained)
      = [BDelete ''ACU:O1'', BSet ''ACU:O1'' ''O1/acc1/M1'']"
    by (simp add: ex_defs model_defs)
  have "WalletUpdate exX 1 (\<lambda>t. exChain [exBlockChained] []) (exManager Map.empty)
      = (Continue,
         \<lparr>m = \<lparr>db = exAccounts,
                wallet = \<lparr>Height = 1, Hash = ''C1'',
                          DB = foldl applyOp [walletkey \<mapsto> ''@'' @ zeroHash]
                                 [BSet walletkey (''@'' @ zeroHash), BDelete ''ACU:O1'',
                                  BSet ''ACU:O1'' ''O1/acc1/M1'', BSet walletkey ''#@C1'']\<rparr>\<rparr>,
          storeBatch = [BSet walletkey (''@'' @ zeroHash), BDelete ''ACU:O1'',
                        BSet ''ACU:O1'' ''O1/acc1/M1'', BSet walletkey ''#@C1''],
          logs = [], clock = 2\<rparr>)"
    using z by (simp add: run_defs ex_defs model_defs Let_def)
  with s b show ?thesis by (simp add: walletkey_def accountUTXOKey_def UTXOPreFix_def)
qed

subsection \<open>Writing a batch, key by key\<close>

lemma Write_touched:
  "k \<in> op_key ` set ops \<Longrightarrow> Write ops d k = Write ops d' k"
proof (induction ops rule: rev_induct)
  case Nil
  then show ?case by simp
next
  case (snoc x xs)
  show ?case
  proof (cases "op_key x = k")
    case True
    then show ?thesis by (cases x) (simp_all add: Write_def)
  next
    case False
    with snoc.prems have "k \<in> op_key ` set xs" by auto
    then have "Write xs d k = Write xs d' k" by (rule snoc.IH)
    with False show ?thesis by (cases x) (auto simp add: Write_def)
  qed
qed

lemma Write_idem: "Write ops (Write ops d) = Write ops d"
proof
  fix k
  show "Write ops (Write ops d) k = Write ops d k"
  proof (cases "k \<in> op_key ` set ops")
    case True
    then show ?thesis by (rule Write_touched)
  next
    case False
    then show ?thesis by (simp add: Write_other_key)
  qed
qed

lemma Write_deletes:
  "Write (map (\<lambda>i. BDelete (accountUTXOKey i)) ids) d k =
     (if k \<in> accountUTXOKey ` set ids then None else d k)"
proof (induction ids rule: rev_induct)
  case Nil
  then show ?case by (simp add: Write_def)
next
  case (snoc i ids)
  then show ?case by (auto simp add: Write_def)
qed

lemma Write_setOps_untouched:
  "k \<notin> (\<lambda>out. accountUTXOKey (OutputID (rawOut out))) ` set outs \<Longrightarrow> Write (setOps X outs) d k = d k"
proof -
  assume a: "k \<notin> (\<lambda>out. accountUTXOKey (OutputID (rawOut out))) ` set outs"
  have "op_key ` set (setOps X outs) = (\<lambda>out. accountUTXOKey (OutputID (rawOut out))) ` set outs"
    by (simp add: setOps_def image_image)
  with a show ?thesis by (simp add: Write_other_key)
qed

lemma Write_setOps_touched:
  "k \<in> (\<lambda>out. accountUTXOKey (OutputID (rawOut out))) ` set outs \<Longrightarrow>
     \<exists>a \<in> set outs. accountUTXOKey (OutputID (rawOut a)) = k
        \<and> Write (setOps X outs) d k = Some (projr (jsonMarshalUTXO X (toUTXO a)))"
proof (induction outs rule: rev_induct)
  case Nil
  then show ?case by simp
next
  case (snoc x xs)
  have step: "Write (setOps X (xs @ [x])) d
      = (Write (setOps X xs) d)(accountUTXOKey (OutputID (rawOut x)) \<mapsto> projr (jsonMarshalUTXO X (toUTXO x)))"
    by (simp add: setOps_def Write_def)
  show ?case
  proof (cases "accountUTXOKey (OutputID (rawOut x)) = k")
    case True
    then have "Write (setOps X (xs @ [x])) d k = Some (projr (jsonMarshalUTXO X (toUTXO x)))"
      by (simp add: step)
    with True show ?thesis by (metis in_set_conv_decomp)
  next
    case False
    with snoc.prems have "k \<in> (\<lambda>out. accountUTXOKey (OutputID (rawOut out))) ` set xs" by auto
    from snoc.IH [OF this] obtain a where a: "a \<in> set xs" "accountUTXOKey (OutputID (rawOut a)) = k"
      "Write (setOps X xs) d k = Some (projr (jsonMarshalUTXO X (toUTXO a)))" by blast
    from False a(3) have "Write (setOps X (xs @ [x])) d k = Some (projr (jsonMarshalUTXO X (toUTXO a)))"
      by (simp add: step)
    with a(1,2) show ?thesis by (metis Un_iff set_append)
  qed
qed

lemma upsert_total:
  assumes "\<forall>u. \<exists>raw. jsonMarshalUTXO X u = Inr raw"
  shows "upsertConfirmedAccountOutputs X outs block batch = (batch @ setOps X outs, None)"
proof (induction outs arbitrary: batch)
  case Nil
  then show ?case by (simp add: setOps_def)
next
  case (Cons out outs)
  from assms obtain raw where raw: "jsonMarshalUTXO X (toUTXO out) = Inr raw" by blast
  have "uOutputID (toUTXO out) = OutputID (rawOut out)" by (simp add: toUTXO_def)
  with raw Cons.IH show ?case by (simp add: setOps_def)
qed

lemma Build_total:
  assumes "\<forall>u. \<exists>raw. jsonMarshalUTXO X u = Inr raw"
  shows "fst (BuildAccountUTXOs X mg batch b) =
     batch @ map (\<lambda>i. BDelete (accountUTXOKey i)) (prevoutDBKeys (Transactions b))
           @ setOps X (loadAccountInfo X mg (concat (map buildOutsTx (Transactions b))))"
  by (simp add: BuildAccountUTXOs_def Let_def upsert_total [OF assms])

lemma Reverse_total:
  assumes "\<forall>u. \<exists>raw. jsonMarshalUTXO X u = Inr raw"
  shows "fst (ReverseAccountUTXOs X mg batch b) =
     batch @ setOps X (loadAccountInfo X mg (concat (map reverseOutsTx (Transactions b))))
           @ map (\<lambda>i. BDelete (accountUTXOKey i)) (concat (map newOutputIdsTx (Transactions b)))"
  by (simp add: ReverseAccountUTXOs_def Let_def upsert_total [OF assms])

subsection \<open>Spent outputs\<close>

lemma in_prevoutDBKeys:
  "sid \<in> set (prevoutDBKeys txs) \<longleftrightarrow>
     (\<exists>tx \<in> set txs. \<exists>inpID \<in> set (InputIDs tx). SpendOf tx inpID = Inr sid)"
proof -
  have "\<And>tx inpID. sid \<in> set (case SpendOf tx inpID of Inr spentOutputId \<Rightarrow> [spentOutputId] | Inl err \<Rightarrow> [])
      \<longleftrightarrow> SpendOf tx inpID = Inr sid"
  proof -
    fix tx inpID
    show "sid \<in> set (case SpendOf tx inpID of Inr spentOutputId \<Rightarrow> [spentOutputId] | Inl err \<Rightarrow> [])
      \<longleftrightarrow> SpendOf tx inpID = Inr sid"
      by (cases "SpendOf tx inpID") auto
  qed
  then show ?thesis unfolding prevoutDBKeys_def by (simp add: Bex_def)
qed

lemma in_reverseOutsTx:
  "r \<in> set (reverseOutsTx tx) \<longleftrightarrow>
     (\<exists>inpID \<in> set (InputIDs tx). SpendOf tx inpID = Inr (OutputID r)
        \<and> (case Entries tx (OutputID r) of
              Some (Output src prog dat) \<Rightarrow>
                r = \<lparr>OutputID = OutputID r, assetAmount = Value src, ControlProgram = prog,
                     txHash = ID tx, outputIndex = 0, sourceID = Ref src,
                     sourcePos = Position src, refData = dat\<rparr>
            | _ \<Rightarrow> False))"
  (is "?L \<longleftrightarrow> ?R")
proof -
  have one: "\<And>inpID. r \<in> set (case SpendOf tx inpID of
          Inl err \<Rightarrow> []
        | Inr spentOutputId \<Rightarrow>
            (case Entries tx spentOutputId of
               Some (Output src prog dat) \<Rightarrow>
                 [\<lparr>OutputID = spentOutputId, assetAmount = Value src, ControlProgram = prog,
                   txHash = ID tx, outputIndex = 0, sourceID = Ref src,
                   sourcePos = Position src, refData = dat\<rparr>]
             | _ \<Rightarrow> []))
     \<longleftrightarrow> (SpendOf tx inpID = Inr (OutputID r)
        \<and> (case Entries tx (OutputID r) of
              Some (Output src prog dat) \<Rightarrow>
                r = \<lparr>OutputID = OutputID r, assetAmount = Value src, ControlProgram = prog,
                     txHash = ID tx, outputIndex = 0, sourceID = Ref src,
                     sourcePos = Position src, refData = dat\<rparr>
            | _ \<Rightarrow> False))"
  proof -
    fix inpID
    show "r \<in> set (case SpendOf tx inpID of
          Inl err \<Rightarrow> []
        | Inr spentOutputId \<Rightarrow>
            (case Entries tx spentOutputId of
               Some (Output src prog dat) \<Rightarrow>
                 [\<lparr>OutputID = spentOutputId, assetAmount = Value src, ControlProgram = prog,
                   txHash = ID tx, outputIndex = 0, sourceID = Ref src,
                   sourcePos = Position src, refData = dat\<rparr>]
             | _ \<Rightarrow> []))
     \<longleftrightarrow> (SpendOf tx inpID = Inr (OutputID r)
        \<and> (case Entries tx (OutputID r) of
              Some (Output src prog dat) \<Rightarrow>
                r = \<lparr>OutputID = OutputID r, assetAmount = Value src, ControlProgram = prog,
                     txHash = ID tx, outputIndex = 0, sourceID = Ref src,
                     sourcePos = Position src, refData = dat\<rparr>
            | _ \<Rightarrow> False))"
    proof (cases "SpendOf tx inpID")
      case (Inl e)
      then show ?thesis by simp
    next
      case (Inr sid)
      show ?thesis
      proof (cases "Entries tx sid")
        case None
        with Inr show ?thesis by auto
      next
        case (Some en)
        with Inr show ?thesis by (cases en) auto
      qed
    qed
  qed
  show ?thesis unfolding reverseOutsTx_def set_concat set_map using one by blast
qed

lemma created_ids:
  "OutputID ` set (concat (map buildOutsTx txs)) = set (concat (map newOutputIdsTx txs))"
proof -
  have "\<And>tx. OutputID ` set (buildOutsTx tx) = set (newOutputIdsTx tx)"
  proof
    fix tx
    show "OutputID ` set (buildOutsTx tx) \<subseteq> set (newOutputIdsTx tx)"
    proof
      fix i assume "i \<in> OutputID ` set (buildOutsTx tx)"
      then obtain r where r: "r \<in> set (buildOutsTx tx)" "i = OutputID r" by blast
      from buildOutsTx_resolves [OF r(1)] r(2) show "i \<in> set (newOutputIdsTx tx)"
        by (simp only: newOutputIdsTx_iff)
    qed
    show "set (newOutputIdsTx tx) \<subseteq> OutputID ` set (buildOutsTx tx)"
    proof
      fix i assume "i \<in> set (newOutputIdsTx tx)"
      then obtain out where z: "(i, out) \<in> set (zip (ResultIds tx) (Outputs tx))" and e: "isOutputEntry tx i"
        by (auto simp only: newOutputIdsTx_iff)
      from z obtain j where j: "j < length (ResultIds tx)" "j < length (Outputs tx)"
        "ResultIds tx ! j = i" "Outputs tx ! j = out"
        by (auto simp add: in_set_zip)
      then have zz: "(j, i, out) \<in> set (zip [0 ..< length (Outputs tx)] (zip (ResultIds tx) (Outputs tx)))"
        unfolding in_set_zip by (intro exI [of _ j]) simp
      from e obtain en where en: "Entries tx i = Some en"
        by (cases "Entries tx i") (auto simp add: isOutputEntry_def)
      with e obtain src prog dat where o: "en = Output src prog dat"
        by (cases en) (auto simp add: isOutputEntry_def)
      let ?r = "\<lparr>OutputID = i, assetAmount = outAssetAmount out,
                     ControlProgram = outControlProgram out, txHash = ID tx,
                     outputIndex = of_nat j, sourceID = Ref src,
                     sourcePos = Position src, refData = dat\<rparr>"
      have "?r \<in> set (buildOutsTx tx)"
        unfolding in_buildOutsTx using zz en o by (auto intro!: exI [of _ j] exI [of _ out])
      then show "i \<in> OutputID ` set (buildOutsTx tx)" by force
    qed
  qed
  then show ?thesis by (induction txs) (simp_all add: image_Un)
qed

subsection \<open>Apply, then roll back\<close>

lemma storedRecord_of_annotated:
  assumes reg: "wholeRegistry X mg"
    and total: "\<forall>u. \<exists>raw. jsonMarshalUTXO X u = Inr raw"
    and a: "a \<in> set (loadAccountInfo X mg outs)"
  shows "storedRecord X mg (rawOut a) = Some (projr (jsonMarshalUTXO X (toUTXO a)))"
proof -
  from loadAccountInfo_sound [OF reg a] obtain cp where
    cp: "lookupCP X mg (ControlProgram (rawOut a)) = Some cp" and eq: "a = newOut cp (rawOut a)"
    by (cases "lookupCP X mg (ControlProgram (rawOut a))") auto
  from total obtain raw where raw: "jsonMarshalUTXO X (toUTXO a) = Inr raw" by blast
  have "storedRecord X mg (rawOut a) =
      (case jsonMarshalUTXO X (toUTXO (newOut cp (rawOut a))) of Inl err \<Rightarrow> None | Inr raw \<Rightarrow> Some raw)"
    by (simp add: storedRecord_def cp)
  also have "\<dots> = (case jsonMarshalUTXO X (toUTXO a) of Inl err \<Rightarrow> None | Inr raw \<Rightarrow> Some raw)"
    using eq by simp
  finally show ?thesis using raw by simp
qed

lemma storedRecord_None:
  assumes total: "\<forall>u. \<exists>raw. jsonMarshalUTXO X u = Inr raw"
  shows "storedRecord X mg r = None \<longleftrightarrow> lookupCP X mg (ControlProgram r) = None"
proof (cases "lookupCP X mg (ControlProgram r)")
  case None
  then show ?thesis by (simp add: storedRecord_def)
next
  case (Some cp)
  from total obtain raw where "jsonMarshalUTXO X (toUTXO (newOut cp r)) = Inr raw" by blast
  with Some show ?thesis by (simp add: storedRecord_def)
qed

lemma storedRecord_same:
  assumes "assetAmount u = assetAmount r" "ControlProgram u = ControlProgram r"
    "sourceID u = sourceID r" "sourcePos u = sourcePos r" "refData u = refData r"
    "OutputID u = OutputID r"
  shows "storedRecord X mg u = storedRecord X mg r"
proof -
  have t: "\<And>cp. toUTXO (newOut cp u) = toUTXO (newOut cp r)"
    using assms by (simp add: toUTXO_def newOut_def)
  show ?thesis
  proof (cases "lookupCP X mg (ControlProgram r)")
    case None
    then show ?thesis using assms(2) by (simp add: storedRecord_def)
  next
    case (Some cp)
    then show ?thesis using assms(2) t [of cp] by (simp add: storedRecord_def)
  qed
qed

lemma valid_spent:
  assumes valid: "validOn U b" and tx: "tx \<in> set (Transactions b)"
    and r: "r \<in> set (reverseOutsTx tx)"
    and fresh: "OutputID r \<notin> set (concat (map newOutputIdsTx (Transactions b)))"
  shows "\<exists>u. U (OutputID r) = Some u \<and> storedRecord X mg u = storedRecord X mg r"
proof -
  from r obtain inpID where inp: "inpID \<in> set (InputIDs tx)"
    and sp: "SpendOf tx inpID = Inr (OutputID r)"
    and c: "case Entries tx (OutputID r) of
              Some (Output src prog dat) \<Rightarrow>
                r = \<lparr>OutputID = OutputID r, assetAmount = Value src, ControlProgram = prog,
                     txHash = ID tx, outputIndex = 0, sourceID = Ref src,
                     sourcePos = Position src, refData = dat\<rparr>
            | _ \<Rightarrow> False"
    unfolding in_reverseOutsTx by blast
  from valid tx inp have v: "validInput U b tx inpID" unfolding validOn_def by blast
  from c obtain en where en: "Entries tx (OutputID r) = Some en"
    by (cases "Entries tx (OutputID r)") auto
  with c obtain src prog dat where o: "en = Output src prog dat" by (cases en) auto
  from c en o have req: "r = \<lparr>OutputID = OutputID r, assetAmount = Value src, ControlProgram = prog,
                     txHash = ID tx, outputIndex = 0, sourceID = Ref src,
                     sourcePos = Position src, refData = dat\<rparr>" by simp
  from v sp fresh en o obtain u where u: "U (OutputID r) = Some u"
    and f: "assetAmount u = Value src \<and> ControlProgram u = prog
                               \<and> sourceID u = Ref src \<and> sourcePos u = Position src
                               \<and> refData u = dat \<and> OutputID u = OutputID r"
    by (cases "U (OutputID r)") (auto simp add: validInput_def)
  have r1: "assetAmount r = Value src" "ControlProgram r = prog" "sourceID r = Ref src"
    "sourcePos r = Position src" "refData r = dat"
    by (subst req, simp)+
  have "storedRecord X mg u = storedRecord X mg r"
    by (rule storedRecord_same) (simp_all add: f r1)
  with u show ?thesis by blast
qed

lemma valid_resolves:
  assumes valid: "validOn U b" and sid: "sid \<in> set (prevoutDBKeys (Transactions b))"
    and fresh: "sid \<notin> set (concat (map newOutputIdsTx (Transactions b)))"
  shows "\<exists>tx \<in> set (Transactions b). \<exists>r \<in> set (reverseOutsTx tx). OutputID r = sid"
proof -
  from sid obtain tx inpID where tx: "tx \<in> set (Transactions b)" and inp: "inpID \<in> set (InputIDs tx)"
    and sp: "SpendOf tx inpID = Inr sid"
    unfolding in_prevoutDBKeys by blast
  from valid tx inp have v: "validInput U b tx inpID" unfolding validOn_def by blast
  from v sp fresh obtain en where en: "Entries tx sid = Some en"
    by (cases "Entries tx sid") (auto simp add: validInput_def)
  with v sp fresh obtain src prog dat where o: "en = Output src prog dat"
    by (cases en) (auto simp add: validInput_def)
  let ?r = "\<lparr>OutputID = sid, assetAmount = Value src, ControlProgram = prog,
                     txHash = ID tx, outputIndex = 0, sourceID = Ref src,
                     sourcePos = Position src, refData = dat\<rparr>"
  have "?r \<in> set (reverseOutsTx tx)"
    unfolding in_reverseOutsTx using inp sp en o by (intro bexI [of _ inpID]) simp_all
  moreover have "OutputID ?r = sid" by simp
  ultimately show ?thesis using tx by blast
qed

lemma annotated_created_keys:
  assumes "a \<in> set (loadAccountInfo X mg (concat (map buildOutsTx txs)))"
  shows "OutputID (rawOut a) \<in> set (concat (map newOutputIdsTx txs))"
proof -
  from loadAccountInfo_subset [OF assms]
  have "OutputID (rawOut a) \<in> OutputID ` set (concat (map buildOutsTx txs))" by (rule imageI)
  then show ?thesis by (simp only: created_ids)
qed

lemma roundtrip_key:
  assumes reg: "wholeRegistry X mg"
    and total: "\<forall>u. \<exists>raw. jsonMarshalUTXO X u = Inr raw"
    and order: "\<forall>ks. set (rangeOrder X ks) = set ks"
    and cons: "consistentStore X mg d U"
    and valid: "validOn U b"
    and k: "k \<noteq> walletkey"
  shows "Write (setOps X (loadAccountInfo X mg (concat (map reverseOutsTx (Transactions b))))
                @ map (\<lambda>i. BDelete (accountUTXOKey i)) (concat (map newOutputIdsTx (Transactions b))))
           (Write (map (\<lambda>i. BDelete (accountUTXOKey i)) (prevoutDBKeys (Transactions b))
                   @ setOps X (loadAccountInfo X mg (concat (map buildOutsTx (Transactions b))))
                   @ [BSet walletkey v]) d) k
         = d k"
proof -
  let ?txs = "Transactions b"
  let ?created = "concat (map newOutputIdsTx ?txs)"
  let ?spent = "prevoutDBKeys ?txs"
  let ?accR = "loadAccountInfo X mg (concat (map reverseOutsTx ?txs))"
  let ?accB = "loadAccountInfo X mg (concat (map buildOutsTx ?txs))"
  let ?keyOf = "\<lambda>out. accountUTXOKey (OutputID (rawOut out))"
  let ?d1 = "Write (map (\<lambda>i. BDelete (accountUTXOKey i)) ?spent @ setOps X ?accB @ [BSet walletkey v]) d"
  have lhs: "Write (setOps X ?accR @ map (\<lambda>i. BDelete (accountUTXOKey i)) ?created) ?d1 k
      = (if k \<in> accountUTXOKey ` set ?created then None else Write (setOps X ?accR) ?d1 k)"
    by (simp add: Write_append Write_deletes)
  have cons_at: "\<And>i. d (accountUTXOKey i) = (case U i of None \<Rightarrow> None | Some out \<Rightarrow> storedRecord X mg out)"
    using cons unfolding consistentStore_def by blast
  show ?thesis
  proof (cases "k \<in> accountUTXOKey ` set ?created")
    case True
    then obtain i where i: "i \<in> set ?created" "k = accountUTXOKey i" by blast
    from valid i(1) have "U i = None" unfolding validOn_def by blast
    with cons_at [of i] i(2) have "d k = None" by simp
    with True lhs show ?thesis by simp
  next
    case notcreated: False
    show ?thesis
    proof (cases "k \<in> ?keyOf ` set ?accR")
      case True
      from Write_setOps_touched [OF True, of X ?d1] obtain a where a: "a \<in> set ?accR"
        "accountUTXOKey (OutputID (rawOut a)) = k"
        "Write (setOps X ?accR) ?d1 k = Some (projr (jsonMarshalUTXO X (toUTXO a)))" by blast
      from storedRecord_of_annotated [OF reg total a(1)]
      have sr: "storedRecord X mg (rawOut a) = Some (projr (jsonMarshalUTXO X (toUTXO a)))" .
      from loadAccountInfo_subset [OF a(1)] obtain tx where tx: "tx \<in> set ?txs"
        "rawOut a \<in> set (reverseOutsTx tx)" by auto
      have fresh: "OutputID (rawOut a) \<notin> set ?created"
        using notcreated a(2) by blast
      from valid_spent [OF valid tx fresh, of X mg] obtain u where
        u: "U (OutputID (rawOut a)) = Some u" "storedRecord X mg u = storedRecord X mg (rawOut a)"
        by blast
      from cons_at [of "OutputID (rawOut a)"] u a(2) sr
      have "d k = Some (projr (jsonMarshalUTXO X (toUTXO a)))" by simp
      with notcreated lhs a(3) show ?thesis by simp
    next
      case notres: False
      have "k \<notin> ?keyOf ` set ?accB"
      proof
        assume "k \<in> ?keyOf ` set ?accB"
        then obtain a where a: "a \<in> set ?accB" "k = accountUTXOKey (OutputID (rawOut a))" by blast
        from annotated_created_keys [OF a(1)] a(2) notcreated show False by blast
      qed
      then have untouched: "\<And>d'. Write (setOps X ?accB) d' k = d' k"
        by (rule Write_setOps_untouched)
      have last: "\<And>d'. Write [BSet walletkey v] d' k = d' k"
        using k by (intro Write_other_key) simp
      have d1: "?d1 k = (if k \<in> accountUTXOKey ` set ?spent then None else d k)"
        by (simp only: Write_append last untouched Write_deletes)
      have res: "Write (setOps X ?accR) ?d1 k = ?d1 k"
        using notres by (rule Write_setOps_untouched)
      show ?thesis
      proof (cases "k \<in> accountUTXOKey ` set ?spent")
        case True
        then obtain sid where sid: "sid \<in> set ?spent" "k = accountUTXOKey sid" by blast
        have fresh: "sid \<notin> set ?created" using notcreated sid(2) by blast
        from valid_resolves [OF valid sid(1) fresh] obtain tx r where
          tx: "tx \<in> set ?txs" and r: "r \<in> set (reverseOutsTx tx)" "OutputID r = sid" by blast
        from fresh r(2) have fresh': "OutputID r \<notin> set ?created" by simp
        from valid_spent [OF valid tx r(1) fresh', of X mg] r(2) obtain u where
          u: "U sid = Some u" "storedRecord X mg u = storedRecord X mg r" by auto
        have "lookupCP X mg (ControlProgram r) = None"
        proof (rule ccontr)
          assume "lookupCP X mg (ControlProgram r) \<noteq> None"
          then obtain cp where cp: "lookupCP X mg (ControlProgram r) = Some cp" by blast
          have rin: "r \<in> set (concat (map reverseOutsTx ?txs))" using tx r(1) by auto
          have "newOut cp r \<in> set ?accR"
            using reg order rin cp by (intro loadAccountInfo_complete) simp_all
          moreover have "?keyOf (newOut cp r) = k"
            using r(2) sid(2) by (simp add: newOut_def)
          ultimately show False using notres by blast
        qed
        then have "storedRecord X mg r = None" using storedRecord_None [OF total] by blast
        with u cons_at [of sid] sid(2) have "d k = None" by simp
        with True d1 res notcreated lhs show ?thesis by simp
      next
        case False
        with d1 res notcreated lhs show ?thesis by simp
      qed
    qed
  qed
qed

text \<open>The annotation reads the registry only: the wallet record does not matter to it.\<close>

lemma loadLoop_wallet:
  "loadLoop X (mg\<lparr>wallet := w\<rparr>) byScript ss cp result = loadLoop X mg byScript ss cp result"
  by (induction ss arbitrary: cp result) (simp_all split: option.splits prod.splits)

lemma loadAccountInfo_wallet: "loadAccountInfo X (mg\<lparr>wallet := w\<rparr>) outs = loadAccountInfo X mg outs"
  by (simp add: loadAccountInfo_def loadLoop_wallet)

lemma Build_wallet:
  "BuildAccountUTXOs X (mg\<lparr>wallet := w\<rparr>) batch b = BuildAccountUTXOs X mg batch b"
  by (simp add: BuildAccountUTXOs_def loadAccountInfo_wallet)

lemma Reverse_wallet:
  "ReverseAccountUTXOs X (mg\<lparr>wallet := w\<rparr>) batch b = ReverseAccountUTXOs X mg batch b"
  by (simp add: ReverseAccountUTXOs_def loadAccountInfo_wallet)

text \<open>The two operations are the steps of the loop.\<close>

lemma linkage_is_applyBlock:
  assumes "PreviousBlockHash b = Hash (wallet (m r))"
  shows "wallet (m (linkage X r b)) = fst (applyBlock X (m r) (storeBatch r) b)"
    and "storeBatch (linkage X r b) = fst (snd (applyBlock X (m r) (storeBatch r) b))"
  using assms
  by (simp_all add: linkage_def applyBlock_def commitRun_def Let_def split: prod.splits)

lemma rollback_commit_is_rollbackBlock:
  assumes "GetBlockByHash (env (clock r)) (Hash (wallet (m r))) = Inr b"
  shows "wallet (m (commitRun X (snd (rollback X env r))))
           = fst (rollbackBlock X (m r) (storeBatch r) b)"
    and "storeBatch (commitRun X (snd (rollback X env r)))
           = fst (snd (rollbackBlock X (m r) (storeBatch r) b))"
  using assms
  by (auto simp add: rollback_def rollbackBlock_def commitRun_def Let_def split: prod.splits)

text \<open>
  Claim C2. Let every record of the registry be whole (decoding it assigns every field, so
  that the one \<^verbatim>\<open>cp\<close> that \<^verbatim>\<open>loadAccountInfo\<close> decodes into carries nothing from one
  record to the next), let the store be consistent with the ledger state \<open>U\<close> at the
  checkpoint, let the block \<open>b\<close> be a child of the checkpoint (its parent hash is the checkpoint's hash and
  its height the checkpoint's plus one) that is valid on \<open>U\<close>, let serialisation succeed
  and the runtime range over every key of a map, and let the database be what the last
  write of the running batch left. Then applying \<open>b\<close> and rolling \<open>b\<close> back, the registry
  unchanged, gives back the checkpoint and, under every key but the wallet key, the same
  record or absence of record as before; the wallet key holds the serialised checkpoint
  again, so the whole database is as before when it held that.
\<close>

theorem apply_then_rollback_restores:
  assumes reg: "wholeRegistry X mg"
    and total: "\<forall>u. \<exists>raw. jsonMarshalUTXO X u = Inr raw"
    and totalI: "\<forall>i. \<exists>raw. jsonMarshalInfo X i = Inr raw"
    and order: "\<forall>ks. set (rangeOrder X ks) = set ks"
    and cons: "consistentStore X mg (DB (wallet mg)) U"
    and valid: "validOn U b"
    and link: "PreviousBlockHash b = Hash (wallet mg)"
    and height: "BlockHeight b = Height (wallet mg) + 1"
    and written: "Write batch (DB (wallet mg)) = DB (wallet mg)"
  shows "Height (fst (applyBlock X mg batch b)) = BlockHeight b
    \<and> Hash (fst (applyBlock X mg batch b)) = BlockHash b
    \<and> Height (fst (rollbackBlock X (mg\<lparr>wallet := fst (applyBlock X mg batch b)\<rparr>)
                     (fst (snd (applyBlock X mg batch b))) b)) = Height (wallet mg)
    \<and> Hash (fst (rollbackBlock X (mg\<lparr>wallet := fst (applyBlock X mg batch b)\<rparr>)
                     (fst (snd (applyBlock X mg batch b))) b)) = Hash (wallet mg)
    \<and> (\<forall>k. k \<noteq> walletkey \<longrightarrow>
          DB (fst (rollbackBlock X (mg\<lparr>wallet := fst (applyBlock X mg batch b)\<rparr>)
                     (fst (snd (applyBlock X mg batch b))) b)) k = DB (wallet mg) k)
    \<and> jsonMarshalInfo X \<lparr>Height = Height (wallet mg), Hash = Hash (wallet mg)\<rparr>
        = Inr (the (DB (fst (rollbackBlock X (mg\<lparr>wallet := fst (applyBlock X mg batch b)\<rparr>)
                     (fst (snd (applyBlock X mg batch b))) b)) walletkey))
    \<and> (jsonMarshalInfo X \<lparr>Height = Height (wallet mg), Hash = Hash (wallet mg)\<rparr>
          = Inr (the (DB (wallet mg) walletkey)) \<and> DB (wallet mg) walletkey \<noteq> None \<longrightarrow>
        DB (fst (rollbackBlock X (mg\<lparr>wallet := fst (applyBlock X mg batch b)\<rparr>)
                     (fst (snd (applyBlock X mg batch b))) b)) = DB (wallet mg))"
proof -
  let ?w = "wallet mg"
  let ?txs = "Transactions b"
  let ?dels = "map (\<lambda>i. BDelete (accountUTXOKey i)) (prevoutDBKeys ?txs)"
  let ?setsB = "setOps X (loadAccountInfo X mg (concat (map buildOutsTx ?txs)))"
  let ?setsR = "setOps X (loadAccountInfo X mg (concat (map reverseOutsTx ?txs)))"
  let ?delsC = "map (\<lambda>i. BDelete (accountUTXOKey i)) (concat (map newOutputIdsTx ?txs))"
  from totalI obtain raw1 where raw1: "jsonMarshalInfo X \<lparr>Height = BlockHeight b, Hash = BlockHash b\<rparr> = Inr raw1"
    by blast
  from totalI obtain raw0 where raw0: "jsonMarshalInfo X \<lparr>Height = Height ?w, Hash = Hash ?w\<rparr> = Inr raw0"
    by blast
  let ?batch1 = "batch @ ?dels @ ?setsB @ [BSet walletkey raw1]"
  let ?D1 = "Write ?batch1 (DB ?w)"
  let ?w1 = "?w\<lparr>Height := BlockHeight b, Hash := BlockHash b, DB := ?D1\<rparr>"
  have app: "applyBlock X mg batch b = (?w1, ?batch1, [])"
    by (simp add: applyBlock_def commitWalletInfo_def Build_wallet Build_total [OF total] raw1 Let_def)
  let ?batch2 = "?batch1 @ ?setsR @ ?delsC @ [BSet walletkey raw0]"
  let ?D2 = "Write ?batch2 ?D1"
  let ?w2 = "?w1\<lparr>Height := BlockHeight b - 1, Hash := PreviousBlockHash b, DB := ?D2\<rparr>"
  have h0: "BlockHeight b - 1 = Height ?w" using height by simp
  have rb: "rollbackBlock X (mg\<lparr>wallet := ?w1\<rparr>) ?batch1 b = (?w2, ?batch2, [])"
    using raw0 h0 link
    by (simp add: rollbackBlock_def commitWalletInfo_def Reverse_total [OF total]
        loadAccountInfo_wallet Let_def)
  have "?D1 = Write (?dels @ ?setsB @ [BSet walletkey raw1]) (Write batch (DB ?w))"
    by (rule Write_append)
  then have D1: "?D1 = Write (?dels @ ?setsB @ [BSet walletkey raw1]) (DB ?w)"
    using written by simp
  have "?D2 = Write (?setsR @ ?delsC @ [BSet walletkey raw0]) (Write ?batch1 ?D1)"
    by (rule Write_append)
  also have "Write ?batch1 ?D1 = ?D1" by (rule Write_idem)
  finally have "?D2 = Write ((?setsR @ ?delsC) @ [BSet walletkey raw0]) ?D1"
    by simp
  then have D2: "?D2 = Write [BSet walletkey raw0] (Write (?setsR @ ?delsC) ?D1)"
    by (simp only: Write_append)
  have utxo: "\<forall>k. k \<noteq> walletkey \<longrightarrow> ?D2 k = DB ?w k"
  proof (intro allI impI)
    fix k assume k: "k \<noteq> walletkey"
    have "?D2 k = Write (?setsR @ ?delsC) ?D1 k"
      unfolding D2 using k by (intro Write_other_key) simp
    also have "\<dots> = DB ?w k"
      unfolding D1 using reg total order cons valid k by (rule roundtrip_key)
    finally show "?D2 k = DB ?w k" .
  qed
  have wk: "?D2 walletkey = Some raw0"
    unfolding D2 by (simp add: Write_def)
  have whole: "jsonMarshalInfo X \<lparr>Height = Height ?w, Hash = Hash ?w\<rparr>
          = Inr (the (DB ?w walletkey)) \<and> DB ?w walletkey \<noteq> None \<longrightarrow> ?D2 = DB ?w"
  proof
    assume a: "jsonMarshalInfo X \<lparr>Height = Height ?w, Hash = Hash ?w\<rparr>
          = Inr (the (DB ?w walletkey)) \<and> DB ?w walletkey \<noteq> None"
    with raw0 have "DB ?w walletkey = Some raw0" by auto
    with wk utxo show "?D2 = DB ?w" by (intro ext) metis
  qed
  have c1: "Height ?w1 = BlockHeight b" "Hash ?w1 = BlockHash b" by simp_all
  have c2: "Height ?w2 = Height ?w" "Hash ?w2 = Hash ?w" using h0 link by simp_all
  have c3: "DB ?w2 = ?D2" by simp
  have c4: "jsonMarshalInfo X \<lparr>Height = Height ?w, Hash = Hash ?w\<rparr> = Inr (the (?D2 walletkey))"
    using raw0 wk by simp
  show ?thesis
    unfolding app rb fst_conv snd_conv c3 using c1 c2 utxo c4 whole by blast
qed

theorem apply_then_rollback_restores_witness:
  "wholeRegistry exX (exManagerAt 1 ''B1'' exStore1)
   \<and> (\<forall>u. \<exists>raw. jsonMarshalUTXO exX u = Inr raw)
   \<and> (\<forall>i. \<exists>raw. jsonMarshalInfo exX i = Inr raw)
   \<and> (\<forall>ks. set (rangeOrder exX ks) = set ks)
   \<and> consistentStore exX (exManagerAt 1 ''B1'' exStore1) exStore1 exLedger1
   \<and> validOn exLedger1 exBlock2
   \<and> PreviousBlockHash exBlock2 = ''B1'' \<and> BlockHeight exBlock2 = 1 + 1
   \<and> Write [] exStore1 = exStore1
   \<and> DB (fst (applyBlock exX (exManagerAt 1 ''B1'' exStore1) [] exBlock2)) (accountUTXOKey ''O1'') = None
   \<and> DB (fst (applyBlock exX (exManagerAt 1 ''B1'' exStore1) [] exBlock2)) (accountUTXOKey ''O2'')
        = Some ''O2/acc1/M2''
   \<and> DB (fst (applyBlock exX (exManagerAt 1 ''B1'' exStore1) [] exBlock2)) (accountUTXOKey ''O3'') = None
   \<and> Height (fst (applyBlock exX (exManagerAt 1 ''B1'' exStore1) [] exBlock2)) = 2
   \<and> Hash (fst (applyBlock exX (exManagerAt 1 ''B1'' exStore1) [] exBlock2)) = ''B2''
   \<and> Height (fst (rollbackBlock exX
         ((exManagerAt 1 ''B1'' exStore1)\<lparr>wallet := fst (applyBlock exX (exManagerAt 1 ''B1'' exStore1) [] exBlock2)\<rparr>)
         (fst (snd (applyBlock exX (exManagerAt 1 ''B1'' exStore1) [] exBlock2))) exBlock2)) = 1
   \<and> Hash (fst (rollbackBlock exX
         ((exManagerAt 1 ''B1'' exStore1)\<lparr>wallet := fst (applyBlock exX (exManagerAt 1 ''B1'' exStore1) [] exBlock2)\<rparr>)
         (fst (snd (applyBlock exX (exManagerAt 1 ''B1'' exStore1) [] exBlock2))) exBlock2)) = ''B1''
   \<and> DB (fst (rollbackBlock exX
         ((exManagerAt 1 ''B1'' exStore1)\<lparr>wallet := fst (applyBlock exX (exManagerAt 1 ''B1'' exStore1) [] exBlock2)\<rparr>)
         (fst (snd (applyBlock exX (exManagerAt 1 ''B1'' exStore1) [] exBlock2))) exBlock2)) = exStore1"
proof -
  let ?mg = "exManagerAt 1 ''B1'' exStore1"
  have reg: "wholeRegistry exX ?mg" by (rule exX_whole)
  have total: "\<forall>u. \<exists>raw. jsonMarshalUTXO exX u = Inr raw" by (simp add: exX_def)
  have totalI: "\<forall>i. \<exists>raw. jsonMarshalInfo exX i = Inr raw" by (simp add: exX_def)
  have order: "\<forall>ks. set (rangeOrder exX ks) = set ks" by (simp add: exX_def)
  have cons: "consistentStore exX ?mg (DB (wallet ?mg)) exLedger1"
    by (simp add: consistentStore_def exManagerAt_def exStore1_def exLedger1_def storedRecord_def
        lookupCP_def zeroCP_def exX_def exAccounts_def newOut_def toUTXO_def accountUTXOKey_inj
        accountUTXOKey_not_walletkey)
  have valid: "validOn exLedger1 exBlock2"
    by (simp add: validOn_def validInput_def exLedger1_def exBlock2_def exTx2_def exOut_def
        exTxOut_def SpendOf_def newOutputIdsTx_def isOutputEntry_def)
  have link: "PreviousBlockHash exBlock2 = Hash (wallet ?mg)"
    by (simp add: exBlock2_def exManagerAt_def)
  have height: "BlockHeight exBlock2 = Height (wallet ?mg) + 1"
    by (simp add: exBlock2_def exManagerAt_def)
  have written: "Write [] (DB (wallet ?mg)) = DB (wallet ?mg)" by (simp add: Write_def)
  note t = apply_then_rollback_restores [OF reg total totalI order cons valid link height written]
  have m0: "jsonMarshalInfo exX \<lparr>Height = Height (wallet ?mg), Hash = Hash (wallet ?mg)\<rparr>
          = Inr (the (DB (wallet ?mg) walletkey)) \<and> DB (wallet ?mg) walletkey \<noteq> None"
    by (simp add: exX_def exManagerAt_def exStore1_def accountUTXOKey_not_walletkey)
  from t m0 have restored: "DB (fst (rollbackBlock exX (?mg\<lparr>wallet := fst (applyBlock exX ?mg [] exBlock2)\<rparr>)
                     (fst (snd (applyBlock exX ?mg [] exBlock2))) exBlock2)) = DB (wallet ?mg)"
    by blast
  from t have cp: "Height (fst (rollbackBlock exX (?mg\<lparr>wallet := fst (applyBlock exX ?mg [] exBlock2)\<rparr>)
                     (fst (snd (applyBlock exX ?mg [] exBlock2))) exBlock2)) = Height (wallet ?mg)"
    "Hash (fst (rollbackBlock exX (?mg\<lparr>wallet := fst (applyBlock exX ?mg [] exBlock2)\<rparr>)
                     (fst (snd (applyBlock exX ?mg [] exBlock2))) exBlock2)) = Hash (wallet ?mg)"
    "Height (fst (applyBlock exX ?mg [] exBlock2)) = BlockHeight exBlock2"
    "Hash (fst (applyBlock exX ?mg [] exBlock2)) = BlockHash exBlock2"
    by blast+
  have b: "fst (BuildAccountUTXOs exX ?mg [] exBlock2)
     = [BDelete ''ACU:O1'', BSet ''ACU:O2'' ''O2/acc1/M2'']"
    by (simp add: ex_defs model_defs)
  have ap: "DB (fst (applyBlock exX ?mg [] exBlock2))
     = foldl applyOp exStore1 [BDelete ''ACU:O1'', BSet ''ACU:O2'' ''O2/acc1/M2'', BSet walletkey ''##@B2'']"
    unfolding applyBlock_def Build_wallet Let_def b
    by (simp add: commitWalletInfo_def exX_def exBlock2_def exManagerAt_def Write_def)
      (simp add: numeral_2_eq_2)
  have ap1: "DB (fst (applyBlock exX ?mg [] exBlock2)) (accountUTXOKey ''O1'') = None"
    "DB (fst (applyBlock exX ?mg [] exBlock2)) (accountUTXOKey ''O2'') = Some ''O2/acc1/M2''"
    "DB (fst (applyBlock exX ?mg [] exBlock2)) (accountUTXOKey ''O3'') = None"
    unfolding ap by (simp_all add: exStore1_def accountUTXOKey_def UTXOPreFix_def walletkey_def)
  have w: "DB (wallet ?mg) = exStore1" "Height (wallet ?mg) = 1" "Hash (wallet ?mg) = ''B1''"
    by (simp_all add: exManagerAt_def)
  have bl: "PreviousBlockHash exBlock2 = ''B1''" "BlockHeight exBlock2 = 1 + 1"
    "BlockHeight exBlock2 = 2" "BlockHash exBlock2 = ''B2''"
    by (simp_all add: exBlock2_def)
  from reg total totalI order cons valid bl written ap1 cp restored
  show ?thesis unfolding w bl(3,4) by blast
qed

end
